theory Spec2Isabelle
  imports Complex_Main
begin

section \<open>Data model\<close>

text \<open>
  The C sources \<^verbatim>\<open>nonlinearSolverHybrd.c\<close> and \<^verbatim>\<open>linearSolverLapack.c\<close> work on
  arrays of \<^verbatim>\<open>double\<close>. A \<^verbatim>\<open>double\<close> is modelled as a \<^typ>\<open>real\<close> (no rounding,
  no NaN), an array as a list, and the C \<^verbatim>\<open>int\<close>s that only count or carry a status
  code as \<^typ>\<open>int\<close>; flags that the code sets to 0 or 1 and tests for truth are
  \<^typ>\<open>bool\<close>.
\<close>

type_synonym vec = "real list"

text \<open>
  The loop \<^verbatim>\<open>for (i = 0; i < n; i++) v[i] = g(i, v[i]);\<close>: every element-wise loop
  of the sources has this shape. A write beyond the end of the list is lost
  (\<open>list_update\<close>); in C it is undefined behaviour.
\<close>

definition upd_each :: "nat \<Rightarrow> (nat \<Rightarrow> real \<Rightarrow> real) \<Rightarrow> vec \<Rightarrow> vec" where
  "upd_each n g v = fold (\<lambda>i w. w[i := g i (w ! i)]) [0..<n] v"

text \<open>\<^verbatim>\<open>memcpy(dst, src, n * sizeof(double))\<close>\<close>

definition memcpy :: "vec \<Rightarrow> vec \<Rightarrow> nat \<Rightarrow> vec" where
  "memcpy dst src n = upd_each n (\<lambda>i _. src ! i) dst"

text \<open>\<^verbatim>\<open>memset(A, 0, n * sizeof(double))\<close>\<close>

definition memset0 :: "vec \<Rightarrow> nat \<Rightarrow> vec" where
  "memset0 dst n = upd_each n (\<lambda>_ _. 0) dst"

text \<open>
  Modelled from the spec: \<^verbatim>\<open>enorm_\<close> (MINPACK) is called by \<^verbatim>\<open>solveHybrd\<close> but is
  not among the sources; the spec gives \<open>xerror = ||residual||\<^sub>2\<close>, the Euclidean
  norm of the first \<open>n\<close> entries.
\<close>

definition enorm :: "nat \<Rightarrow> vec \<Rightarrow> real" where
  "enorm n v = sqrt (sum_list (map (\<lambda>i. (v ! i)\<^sup>2) [0..<n]))"

text \<open>
  Diagnostics that are printed whatever the debug streams are:
  \<^verbatim>\<open>printErrorEqSyst(IMPROPER_INPUT, ...)\<close>, \<^verbatim>\<open>printErrorEqSyst(ERROR_AT_TIME, ...)\<close>
  and the two \<^verbatim>\<open>warningStreamPrint\<close> calls of \<^verbatim>\<open>solveLapack\<close>, with the numbers they
  print (the equation index and the time are left out). Output guarded by
  \<^verbatim>\<open>DEBUG_STREAM\<close>/\<^verbatim>\<open>ACTIVE_STREAM\<close> is not modelled.
\<close>

datatype event =
    IMPROPER_INPUT
  | ERROR_AT_TIME
  | Argument_illegal int
  | Singular_for_U int int

text \<open>
  The part of \<^verbatim>\<open>DATA\<close> that \<^verbatim>\<open>solveHybrd\<close> reads or writes, flattened into one
  record. Fields \<open>h_*\<close> are those of \<^verbatim>\<open>DATA_HYBRD\<close> (\<^verbatim>\<open>solverData->x\<close> is \<open>h_x\<close>),
  \<open>nlsx*\<close> those of \<^verbatim>\<open>NONLINEAR_SYSTEM_DATA\<close>, then four fields of
  \<^verbatim>\<open>simulationInfo\<close>, then the local variables of \<^verbatim>\<open>solveHybrd\<close>. \<open>env\<close> is all the
  rest of \<^verbatim>\<open>DATA\<close>, which only the callbacks touch; \<open>messages\<close> collects the
  diagnostics. The work arrays and the constant tuning parameters of
  \<^verbatim>\<open>DATA_HYBRD\<close> (\<^verbatim>\<open>xtol\<close>, \<^verbatim>\<open>maxfev\<close>, \<^verbatim>\<open>fjac\<close>, \<^verbatim>\<open>wa1\<close>, ...) are only handed to
  the root-finder and belong to \<open>env\<close>.
\<close>

record 'e DATA =
  h_n :: nat
  h_x :: vec
  h_fvec :: vec
  h_diag :: vec
  h_mode :: int
  h_factor :: real
  h_info :: int
  h_nfev :: int
  h_fjacobian :: vec
  h_resScaling :: vec
  h_useXScaling :: bool
  nlsx :: vec
  nlsxOld :: vec
  nlsxExtrapolation :: vec
  nlsxScaling :: vec
  discreteCall :: bool
  solveContinuous :: bool
  found_solution :: int
  initial :: bool
  iflag :: int
  xerror :: real
  xerror_scaled :: real
  success :: bool
  local_tol :: real
  initial_factor :: real
  nfunc_evals :: int
  giveUp :: bool
  retries :: int
  retries2 :: int
  retries3 :: int
  env :: 'e
  messages :: "event list"

text \<open>What one call of the root-finder \<^verbatim>\<open>_omc_hybrd_\<close> writes through its pointers.\<close>

record 'e hybrd_out =
  o_x :: vec
  o_fvec :: vec
  o_diag :: vec
  o_info :: int
  o_nfev :: int
  o_fjacobian :: vec
  o_env :: 'e

text \<open>
  The routines that \<^verbatim>\<open>solveHybrd\<close> calls and that are not among the sources are
  parameters of the model: the residual callback of the system (it may change the
  iterate it is given, the residual, the flag and \<open>env\<close>), the root-finder (it is
  given the callback \<^verbatim>\<open>fcn\<close> and sees the whole state) and \<^verbatim>\<open>storeRelations\<close>.
\<close>

type_synonym 'e fcn = "nat \<Rightarrow> vec \<Rightarrow> vec \<Rightarrow> int \<Rightarrow> 'e DATA \<Rightarrow> vec \<times> vec \<times> int \<times> 'e DATA"

record 'e ext =
  residualFunc :: "'e DATA \<Rightarrow> vec \<Rightarrow> vec \<Rightarrow> int \<Rightarrow> vec \<times> vec \<times> int \<times> 'e"
  omc_hybrd :: "'e fcn \<Rightarrow> 'e DATA \<Rightarrow> 'e hybrd_out"
  storeRelations :: "'e DATA \<Rightarrow> 'e"

section \<open>The residual adapter\<close>

text \<open>
  \<^verbatim>\<open>wrapper_fvec_hybrd(n, x, f, iflag, data)\<close>; the results are the buffers and the
  data. The iterate is multiplied by \<^verbatim>\<open>nlsxScaling\<close> before the residual callback and
  by \<open>1 / nlsxScaling\<close> after it, when \<^verbatim>\<open>useXScaling\<close> is set. (The \<^verbatim>\<open>ASSERT\<close> that the
  solver data exists always holds here: the data is part of the record.)
\<close>

definition wrapper_fvec_hybrd :: "'e ext \<Rightarrow> 'e fcn" where
  "wrapper_fvec_hybrd E n x f ifl d =
    (case residualFunc E d
            (if h_useXScaling d then upd_each n (\<lambda>i xi. xi * nlsxScaling d ! i) x else x)
            f ifl of
       (x2, f', ifl', env') \<Rightarrow>
         ((if h_useXScaling (d\<lparr>env := env'\<rparr>)
           then upd_each n (\<lambda>i xi. (1 / nlsxScaling (d\<lparr>env := env'\<rparr>) ! i) * xi) x2
           else x2),
          f', ifl', d\<lparr>env := env'\<rparr>))"

section \<open>The nonlinear solve orchestrator\<close>

text \<open>
  \<^verbatim>\<open>solveHybrd\<close> is one long function body; it is cut here into the blocks that its
  own comments name, each a function from the data to the data, and put together in
  the order of the source.

  The initialisers of the local variables; the literals \<^verbatim>\<open>1e-12\<close> and \<^verbatim>\<open>1e-16\<close> of
  the source are written \<open>1 / 10 ^ 12\<close> and \<open>1 / 10 ^ 16\<close>.
\<close>

definition solveHybrd_locals :: "'e DATA \<Rightarrow> 'e DATA" where
  "solveHybrd_locals s =
     s\<lparr>iflag := 0, success := False, local_tol := 1 / 10 ^ 12, initial_factor := h_factor s,
       nfunc_evals := 0, giveUp := False, retries := 0, retries2 := 0, retries3 := 0\<rparr>"

text \<open>\<^verbatim>\<open>/* set x vector */\<close>\<close>

definition set_x_vector :: "'e DATA \<Rightarrow> 'e DATA" where
  "set_x_vector s =
     (if discreteCall s
      then s\<lparr>h_x := memcpy (h_x s) (nlsx s) (h_n s)\<rparr>
      else s\<lparr>h_x := memcpy (h_x s) (nlsxExtrapolation s) (h_n s)\<rparr>)"

text \<open>
  The call \<^verbatim>\<open>wrapper_fvec_hybrd(&solverData->n, solverData->x, solverData->fvec,
  &iflag, data)\<close>: the buffers are fields of the data.
\<close>

definition call_wrapper :: "'e ext \<Rightarrow> 'e DATA \<Rightarrow> 'e DATA" where
  "call_wrapper E s =
     (case wrapper_fvec_hybrd E (h_n s) (h_x s) (h_fvec s) (iflag s) s of
        (x', f', ifl', s') \<Rightarrow> s'\<lparr>h_x := x', h_fvec := f', iflag := ifl'\<rparr>)"

text \<open>
  \<^verbatim>\<open>/* evaluate with discontinuities */\<close> before the loop: the scaling is switched
  off around the call of the adapter and switched on again if it was on.
\<close>

definition evaluate_with_discontinuities :: "'e ext \<Rightarrow> 'e DATA \<Rightarrow> 'e DATA" where
  "evaluate_with_discontinuities E s =
     (if h_useXScaling s
      then (call_wrapper E (s\<lparr>h_useXScaling := False\<rparr>))\<lparr>h_useXScaling := True\<rparr>
      else call_wrapper E s)"

text \<open>Everything before \<^verbatim>\<open>/* start solving loop */\<close>.\<close>

definition solveHybrd_init :: "'e ext \<Rightarrow> 'e DATA \<Rightarrow> 'e DATA" where
  "solveHybrd_init E s =
     evaluate_with_discontinuities E (set_x_vector (solveHybrd_locals s))"

text \<open>\<^verbatim>\<open>/* Scaling x vector */\<close> at the head of the loop body.\<close>

definition scaling_x_vector :: "'e DATA \<Rightarrow> 'e DATA" where
  "scaling_x_vector s =
     (if h_useXScaling s
      then s\<lparr>h_x := upd_each (h_n s) (\<lambda>i xi. (1 / nlsxScaling s ! i) * xi) (h_x s)\<rparr>
      else s)"

text \<open>\<^verbatim>\<open>/* set residual function continuous ... */\<close> and \<^verbatim>\<open>giveUp = 1;\<close>\<close>

definition set_continuous :: "'e DATA \<Rightarrow> 'e DATA" where
  "set_continuous s =
     (if \<not> (h_info s = 4 \<and> discreteCall s)
      then s\<lparr>solveContinuous := True, giveUp := True\<rparr>
      else s\<lparr>giveUp := True\<rparr>)"

text \<open>
  The call of \<^verbatim>\<open>_omc_hybrd_\<close> with \<^verbatim>\<open>wrapper_fvec_hybrd\<close> as its callback, and
  \<^verbatim>\<open>solveContinuous = 0\<close> after it.
\<close>

definition store_hybrd_out :: "'e hybrd_out \<Rightarrow> 'e DATA \<Rightarrow> 'e DATA" where
  "store_hybrd_out r s =
     s\<lparr>h_x := o_x r, h_fvec := o_fvec r, h_diag := o_diag r, h_info := o_info r,
       h_nfev := o_nfev r, h_fjacobian := o_fjacobian r, env := o_env r,
       solveContinuous := False\<rparr>"

definition call_hybrd :: "'e ext \<Rightarrow> 'e DATA \<Rightarrow> 'e DATA" where
  "call_hybrd E s = store_hybrd_out (omc_hybrd E (wrapper_fvec_hybrd E) s) s"

text \<open>\<^verbatim>\<open>/* re-scaling x vector */\<close>\<close>

definition rescaling_x_vector :: "'e DATA \<Rightarrow> 'e DATA" where
  "rescaling_x_vector s =
     (if h_useXScaling s
      then s\<lparr>h_x := upd_each (h_n s) (\<lambda>i xi. xi * nlsxScaling s ! i) (h_x s)\<rparr>
      else s)"

text \<open>\<^verbatim>\<open>/* check for proper inputs */\<close>\<close>

definition check_proper_inputs :: "'e DATA \<Rightarrow> 'e DATA" where
  "check_proper_inputs s =
     (if h_info s = 0
      then s\<lparr>messages := messages s @ [IMPROPER_INPUT], found_solution := - 1\<rparr>
      else s)"

text \<open>
  \<^verbatim>\<open>/* evaluate with discontinuities */\<close> inside the loop: only in a discrete call,
  and \<^verbatim>\<open>storeRelations\<close> runs before the scaling flag is restored.
\<close>

definition store_relations :: "'e ext \<Rightarrow> 'e DATA \<Rightarrow> 'e DATA" where
  "store_relations E s = s\<lparr>env := storeRelations E s\<rparr>"

definition evaluate_discrete :: "'e ext \<Rightarrow> 'e DATA \<Rightarrow> 'e DATA" where
  "evaluate_discrete E s =
     (if discreteCall s then
        (if h_useXScaling s
         then (store_relations E (call_wrapper E (s\<lparr>h_useXScaling := False\<rparr>)))
                \<lparr>h_useXScaling := True\<rparr>
         else store_relations E (call_wrapper E s))
      else s)"

text \<open>
  \<^verbatim>\<open>/* Scaling residual vector */\<close>. The state of the two nested loops is the array
  \<^verbatim>\<open>resScaling\<close> and the running index \<open>l\<close> into \<^verbatim>\<open>fjacobian\<close>. For each \<open>i\<close>:
  \<^verbatim>\<open>resScaling[i] = 1e-16\<close>; the inner loop over \<open>j\<close>, which keeps the larger of
  \<^verbatim>\<open>fabs(fjacobian[l])\<close> and \<^verbatim>\<open>resScaling[i]\<close> in \<^verbatim>\<open>resScaling[i]\<close> and increments
  \<open>l\<close>; then \<^verbatim>\<open>resScaling[i] = fvec[i] * (1 / resScaling[i])\<close>.
\<close>

definition resScaling_start :: "nat \<Rightarrow> vec \<times> nat \<Rightarrow> vec \<times> nat" where
  "resScaling_start i = (\<lambda>(rs, l). (rs[i := 1 / 10 ^ 16], l))"

definition resScaling_row :: "vec \<Rightarrow> nat \<Rightarrow> nat \<Rightarrow> vec \<times> nat \<Rightarrow> vec \<times> nat" where
  "resScaling_row fjacobian n i =
     fold (\<lambda>j (rs, l).
            (rs[i := (if \<bar>fjacobian ! l\<bar> > rs ! i then \<bar>fjacobian ! l\<bar> else rs ! i)], l + 1))
          [0..<n]"

definition resScaling_finish :: "vec \<Rightarrow> nat \<Rightarrow> vec \<times> nat \<Rightarrow> vec \<times> nat" where
  "resScaling_finish fvec i = (\<lambda>(rs, l). (rs[i := fvec ! i * (1 / rs ! i)], l))"

definition scaling_residual_vector :: "'e DATA \<Rightarrow> 'e DATA" where
  "scaling_residual_vector s =
     s\<lparr>h_resScaling :=
         fst (fold (\<lambda>i acc. resScaling_finish (h_fvec s) i
                              (resScaling_row (h_fjacobian s) (h_n s) i (resScaling_start i acc)))
                   [0..<h_n s] (h_resScaling s, 0))\<rparr>"

text \<open>\<^verbatim>\<open>/* check for error */\<close>: the two calls of \<^verbatim>\<open>enorm_\<close>.\<close>

definition check_for_error :: "'e DATA \<Rightarrow> 'e DATA" where
  "check_for_error s =
     s\<lparr>xerror_scaled := enorm (h_n s) (h_resScaling s), xerror := enorm (h_n s) (h_fvec s)\<rparr>"

text \<open>
  One pass of the loop, first part: from \<^verbatim>\<open>/* Scaling x vector */\<close> to the two calls
  of \<^verbatim>\<open>enorm_\<close>.
\<close>

definition hybrd_attempt :: "'e ext \<Rightarrow> 'e DATA \<Rightarrow> 'e DATA" where
  "hybrd_attempt E s =
     check_for_error (scaling_residual_vector (evaluate_discrete E (check_proper_inputs
       (rescaling_x_vector (call_hybrd E (set_continuous (scaling_x_vector s)))))))"

text \<open>\<^verbatim>\<open>if (info == 1 && (xerror > local_tol && xerror_scaled > local_tol)) info = 4;\<close>\<close>

definition reclassify :: "'e DATA \<Rightarrow> 'e DATA" where
  "reclassify s =
     (if h_info s = 1 \<and> (xerror s > local_tol s \<and> xerror_scaled s > local_tol s)
      then s\<lparr>h_info := 4\<rparr> else s)"

text \<open>
  The \<^verbatim>\<open>if ... else if ...\<close> chain from \<^verbatim>\<open>/* solution found */\<close> to the end of the
  loop body, in the order of the source. The last loop of the chain that writes two
  arrays (\<^verbatim>\<open>x[i] = nlsxExtrapolation[i]; diag[i] = 1.0;\<close>) is written as two loops.
\<close>

definition recovery :: "'e DATA \<Rightarrow> 'e DATA" where
  "recovery s =
    (if h_info s = 1 \<or> xerror s \<le> local_tol s \<or> xerror_scaled s \<le> local_tol s then
       s\<lparr>success := True, nfunc_evals := nfunc_evals s + h_nfev s\<rparr>
     else if (h_info s = 4 \<or> h_info s = 5) \<and> retries s < 3 then
       s\<lparr>retries := retries s + 1, giveUp := False, nfunc_evals := nfunc_evals s + h_nfev s,
         h_factor := h_factor s / 10\<rparr>
     else if (h_info s = 4 \<or> h_info s = 5) \<and> retries s < 5 then
       s\<lparr>h_x := upd_each (h_n s) (\<lambda>i xi. xi + nlsxScaling s ! i * (1 / 10)) (h_x s),
         retries := retries s + 1, giveUp := False, nfunc_evals := nfunc_evals s + h_nfev s\<rparr>
     else if (h_info s = 4 \<or> h_info s = 5) \<and> retries s < 4 then
       s\<lparr>h_useXScaling := False,
         retries := retries s + 1, giveUp := False, nfunc_evals := nfunc_evals s + h_nfev s\<rparr>
     else if (h_info s = 4 \<or> h_info s = 5) \<and> retries2 s < 1 then
       s\<lparr>h_x := upd_each (h_n s) (\<lambda>i _. nlsxExtrapolation s ! i * (101 / 100)) (h_x s),
         h_useXScaling := True, retries := 0, retries2 := retries2 s + 1, giveUp := False,
         nfunc_evals := nfunc_evals s + h_nfev s\<rparr>
     else if (h_info s = 4 \<or> h_info s = 5) \<and> retries2 s < 2 then
       s\<lparr>h_x := upd_each (h_n s) (\<lambda>i _. nlsxExtrapolation s ! i * (99 / 100)) (h_x s),
         h_useXScaling := True, retries := 0, retries2 := retries2 s + 1, giveUp := False,
         nfunc_evals := nfunc_evals s + h_nfev s\<rparr>
     else if (h_info s = 4 \<or> h_info s = 5) \<and> retries2 s < 3 then
       s\<lparr>h_x := upd_each (h_n s) (\<lambda>i _. nlsxOld s ! i) (h_x s),
         h_factor := initial_factor s,
         h_useXScaling := True, retries := 0, retries2 := retries2 s + 1, giveUp := False,
         nfunc_evals := nfunc_evals s + h_nfev s\<rparr>
     else if (h_info s = 4 \<or> h_info s = 5) \<and> retries3 s < 1 then
       s\<lparr>h_diag := upd_each (h_n s)
                    (\<lambda>i _. if \<bar>h_resScaling s ! i\<bar> \<le> 0 then 1 / 10 ^ 16 else \<bar>h_resScaling s ! i\<bar>)
                    (h_diag s),
         h_factor := initial_factor s,
         h_useXScaling := True, retries := 0, retries2 := 0, h_mode := 2,
         retries3 := retries3 s + 1, giveUp := False,
         nfunc_evals := nfunc_evals s + h_nfev s\<rparr>
     else if (h_info s = 4 \<or> h_info s = 5) \<and> retries3 s < 2 then
       s\<lparr>h_x := upd_each (h_n s) (\<lambda>i _. nlsxScaling s ! i) (h_x s),
         h_factor := initial_factor s,
         h_useXScaling := True, retries := 0, retries2 := 0, h_mode := 1,
         retries3 := retries3 s + 1, giveUp := False,
         nfunc_evals := nfunc_evals s + h_nfev s\<rparr>
     else if (h_info s = 4 \<or> h_info s = 5) \<and> retries3 s < 3 then
       s\<lparr>h_x := upd_each (h_n s) (\<lambda>_ _. 1) (h_x s),
         h_factor := initial_factor s,
         h_useXScaling := True, retries := 0, retries2 := 0, h_mode := 1,
         retries3 := retries3 s + 1, giveUp := False,
         nfunc_evals := nfunc_evals s + h_nfev s\<rparr>
     else if (h_info s = 4 \<or> h_info s = 5) \<and> retries3 s < 4 then
       s\<lparr>h_x := upd_each (h_n s) (\<lambda>_ _. 0) (h_x s),
         h_factor := initial_factor s,
         h_useXScaling := True, retries := 0, retries2 := 0, h_mode := 1,
         retries3 := retries3 s + 1, giveUp := False,
         nfunc_evals := nfunc_evals s + h_nfev s\<rparr>
     else if (h_info s = 4 \<or> h_info s = 5) \<and> retries3 s < 5 then
       s\<lparr>h_x := upd_each (h_n s) (\<lambda>i _. nlsxExtrapolation s ! i) (h_x s),
         h_diag := upd_each (h_n s) (\<lambda>_ _. 1) (h_diag s),
         h_factor := initial_factor s,
         h_useXScaling := True, retries := 0, retries2 := 0,
         retries3 := retries3 s + 1, h_mode := 2, giveUp := False,
         nfunc_evals := nfunc_evals s + h_nfev s\<rparr>
     else if (h_info s = 4 \<or> h_info s = 5) \<and> retries3 s < 7 then
       s\<lparr>h_factor := initial_factor s,
         h_useXScaling := True, local_tol := local_tol s * 10, retries := 0, retries2 := 0,
         retries3 := retries3 s + 1, h_mode := 2, giveUp := False,
         nfunc_evals := nfunc_evals s + h_nfev s\<rparr>
     else if h_info s \<ge> 2 \<and> h_info s \<le> 5 then
       (if \<not> initial s
        then s\<lparr>found_solution := - 1, messages := messages s @ [ERROR_AT_TIME]\<rparr>
        else s\<lparr>found_solution := - 1\<rparr>)
     else s)"

text \<open>The body of \<^verbatim>\<open>while (!giveUp && !success)\<close>.\<close>

definition solveHybrd_pass :: "'e ext \<Rightarrow> 'e DATA \<Rightarrow> 'e DATA" where
  "solveHybrd_pass E s = recovery (reclassify (hybrd_attempt E s))"

text \<open>
  What is left of the tier budgets: five steps on \<open>retries\<close>, three restarts each
  followed by five such steps, seven changes of the third counter each followed by
  all of that.
\<close>

definition budget :: "'e DATA \<Rightarrow> nat" where
  "budget s = nat (5 - retries s) + 6 * nat (3 - retries2 s) + 24 * nat (7 - retries3 s)"

definition passes_left :: "'e DATA \<Rightarrow> nat" where
  "passes_left s = (if giveUp s \<or> success s then 0 else 1 + budget s)"

text \<open>
  \<^verbatim>\<open>while (!giveUp && !success) { ... }\<close>. The second function counts the passes of
  the same loop, that is the calls of the root-finder.
\<close>

function solveHybrd_loop :: "'e ext \<Rightarrow> 'e DATA \<Rightarrow> 'e DATA" where
  "solveHybrd_loop E s =
     (if \<not> giveUp s \<and> \<not> success s then solveHybrd_loop E (solveHybrd_pass E s) else s)"
  by pat_completeness auto

function solveHybrd_passes :: "'e ext \<Rightarrow> 'e DATA \<Rightarrow> nat" where
  "solveHybrd_passes E s =
     (if \<not> giveUp s \<and> \<not> success s then Suc (solveHybrd_passes E (solveHybrd_pass E s)) else 0)"
  by pat_completeness auto

text \<open>
  \<^verbatim>\<open>/* take the best approximation */\<close> and \<^verbatim>\<open>/* reset some solving data */\<close>.
\<close>

definition solveHybrd_exit :: "'e DATA \<Rightarrow> 'e DATA" where
  "solveHybrd_exit s =
     s\<lparr>nlsx := memcpy (nlsx s) (h_x s) (h_n s), h_factor := initial_factor s\<rparr>"

text \<open>
  \<^verbatim>\<open>solveHybrd\<close>: the data it leaves, and with it the value it returns
  (\<^verbatim>\<open>return success;\<close>).
\<close>

definition solveHybrd_data :: "'e ext \<Rightarrow> 'e DATA \<Rightarrow> 'e DATA" where
  "solveHybrd_data E s = solveHybrd_exit (solveHybrd_loop E (solveHybrd_init E s))"

definition solveHybrd :: "'e ext \<Rightarrow> 'e DATA \<Rightarrow> bool \<times> 'e DATA" where
  "solveHybrd E s = (success (solveHybrd_data E s), solveHybrd_data E s)"

section \<open>The linear solve wrapper\<close>

text \<open>
  \<^verbatim>\<open>LINEAR_SYSTEM_DATA\<close> together with its \<^verbatim>\<open>DATA_LAPACK\<close> (\<open>ipiv\<close>, \<open>nrhs\<close>, \<open>info\<close>);
  the matrix is stored column by column.
\<close>

record 'e LINEAR_SYSTEM_DATA =
  ls_size :: nat
  ls_A :: vec
  ls_b :: vec
  ls_x :: vec
  ls_ipiv :: "int list"
  ls_nrhs :: int
  ls_info :: int
  ls_env :: 'e
  ls_messages :: "event list"

text \<open>
  The assembly callbacks and LAPACK's \<^verbatim>\<open>dgesv_(n, nrhs, a, lda, ipiv, b, ldb, info)\<close>
  are not among the sources and are parameters; \<^verbatim>\<open>dgesv_\<close> gives back what it
  writes to \<^verbatim>\<open>a\<close>, \<^verbatim>\<open>ipiv\<close>, \<^verbatim>\<open>b\<close> and \<^verbatim>\<open>info\<close>.
\<close>

record 'e lapack_ext =
  setA :: "'e LINEAR_SYSTEM_DATA \<Rightarrow> vec \<times> 'e"
  setb :: "'e LINEAR_SYSTEM_DATA \<Rightarrow> vec \<times> 'e"
  dgesv :: "nat \<Rightarrow> int \<Rightarrow> vec \<Rightarrow> nat \<Rightarrow> int list \<Rightarrow> vec \<Rightarrow> nat \<Rightarrow> vec \<times> int list \<times> vec \<times> int"

text \<open>\<^verbatim>\<open>/* reset matrix A */\<close>, \<^verbatim>\<open>/* update matrix A */\<close>, \<^verbatim>\<open>/* update vector b (rhs) */\<close>\<close>

definition reset_matrix_A :: "'e LINEAR_SYSTEM_DATA \<Rightarrow> 'e LINEAR_SYSTEM_DATA" where
  "reset_matrix_A s = s\<lparr>ls_A := memset0 (ls_A s) (ls_size s * ls_size s)\<rparr>"

definition update_matrix_A :: "'e lapack_ext \<Rightarrow> 'e LINEAR_SYSTEM_DATA \<Rightarrow> 'e LINEAR_SYSTEM_DATA" where
  "update_matrix_A E s = (case setA E s of (A', e') \<Rightarrow> s\<lparr>ls_A := A', ls_env := e'\<rparr>)"

definition update_vector_b :: "'e lapack_ext \<Rightarrow> 'e LINEAR_SYSTEM_DATA \<Rightarrow> 'e LINEAR_SYSTEM_DATA" where
  "update_vector_b E s = (case setb E s of (b', e') \<Rightarrow> s\<lparr>ls_b := b', ls_env := e'\<rparr>)"

text \<open>\<^verbatim>\<open>/* Solve system */\<close>\<close>

definition solve_system :: "'e lapack_ext \<Rightarrow> 'e LINEAR_SYSTEM_DATA \<Rightarrow> 'e LINEAR_SYSTEM_DATA" where
  "solve_system E s =
     (case dgesv E (ls_size s) (ls_nrhs s) (ls_A s) (ls_size s) (ls_ipiv s) (ls_b s) (ls_size s) of
        (A', ipiv', b', info') \<Rightarrow> s\<lparr>ls_A := A', ls_ipiv := ipiv', ls_b := b', ls_info := info'\<rparr>)"

text \<open>
  The classification of the status; the warning for a positive status prints
  \<^verbatim>\<open>(int)solverData->info+1\<close> twice.
\<close>

definition lapack_status :: "'e LINEAR_SYSTEM_DATA \<Rightarrow> bool \<times> 'e LINEAR_SYSTEM_DATA" where
  "lapack_status s =
     (if ls_info s < 0 then
        (False, s\<lparr>ls_messages := ls_messages s @ [Argument_illegal (ls_info s)]\<rparr>)
      else if ls_info s > 0 then
        (False, s\<lparr>ls_messages := ls_messages s @ [Singular_for_U (ls_info s + 1) (ls_info s + 1)]\<rparr>)
      else (True, s))"

text \<open>\<^verbatim>\<open>/* take the solution */\<close>\<close>

definition take_the_solution :: "'e LINEAR_SYSTEM_DATA \<Rightarrow> 'e LINEAR_SYSTEM_DATA" where
  "take_the_solution s = s\<lparr>ls_x := memcpy (ls_x s) (ls_b s) (ls_size s)\<rparr>"

definition solveLapack :: "'e lapack_ext \<Rightarrow> 'e LINEAR_SYSTEM_DATA \<Rightarrow> bool \<times> 'e LINEAR_SYSTEM_DATA" where
  "solveLapack E s =
     (case lapack_status (solve_system E (update_vector_b E (update_matrix_A E (reset_matrix_A s)))) of
        (ok, s') \<Rightarrow> (ok, take_the_solution s'))"

section \<open>Stand-ins for the external routines\<close>

text \<open>
  Concrete instances on which the theorems below are evaluated. The residual callback
  computes \<open>r x\<close> and counts its calls in \<open>env\<close>; the root-finder stand-in evaluates
  the callback once at the iterate it is given and reports the termination code
  \<open>code\<close> and the Jacobian estimate \<open>fj\<close>.
\<close>

definition ex_residual :: "(vec \<Rightarrow> vec) \<Rightarrow> nat DATA \<Rightarrow> vec \<Rightarrow> vec \<Rightarrow> int \<Rightarrow> vec \<times> vec \<times> int \<times> nat" where
  "ex_residual r d x f ifl = (x, r x, ifl, Suc (env d))"

definition ex_hybrd :: "int \<Rightarrow> vec \<Rightarrow> nat fcn \<Rightarrow> nat DATA \<Rightarrow> nat hybrd_out" where
  "ex_hybrd code fj fcn d =
     (case fcn (h_n d) (h_x d) (h_fvec d) 0 d of
        (x', f', ifl', d') \<Rightarrow>
          \<lparr>o_x = x', o_fvec = f', o_diag = h_diag d, o_info = code, o_nfev = 1,
           o_fjacobian = fj, o_env = env d'\<rparr>)"

definition ex_ext :: "int \<Rightarrow> (vec \<Rightarrow> vec) \<Rightarrow> vec \<Rightarrow> nat ext" where
  "ex_ext code r fj =
     \<lparr>residualFunc = ex_residual r, omc_hybrd = ex_hybrd code fj, storeRelations = env\<rparr>"

definition ex_data :: "nat DATA" where
  "ex_data =
     \<lparr>h_n = 1, h_x = [0], h_fvec = [0], h_diag = [1], h_mode = 1, h_factor = 100, h_info = 0,
      h_nfev = 0, h_fjacobian = [0], h_resScaling = [0], h_useXScaling = True,
      nlsx = [5], nlsxOld = [7], nlsxExtrapolation = [3], nlsxScaling = [2],
      discreteCall = False, solveContinuous = False, found_solution = 0, initial = False,
      iflag = 0, xerror = 0, xerror_scaled = 0, success = False, local_tol = 0,
      initial_factor = 0, nfunc_evals = 0, giveUp = False, retries = 0, retries2 = 0,
      retries3 = 0, env = 0, messages = []\<rparr>"

definition ex_data2 :: "nat DATA" where
  "ex_data2 =
     ex_data\<lparr>h_n := 2, h_x := [0, 0], h_fvec := [0, 0], h_diag := [1, 1],
       h_fjacobian := [0, 0, 0, 0], h_resScaling := [0, 0], nlsx := [5, 6], nlsxOld := [7, 8],
       nlsxExtrapolation := [3, 4], nlsxScaling := [1, 1]\<rparr>"

text \<open>
  Three runs: a root-finder that reports convergence on the residual \<open>x - 3\<close>, one
  that reports improper input, and one that stalls (code 4) with the residual \<open>[1]\<close>
  on every call; and the data with which the stalling run enters its fourth pass.
\<close>

abbreviation ex_converge :: "nat ext" where
  "ex_converge \<equiv> ex_ext 1 (map (\<lambda>xi. xi - 3)) [1]"

abbreviation ex_improper :: "nat ext" where
  "ex_improper \<equiv> ex_ext 0 (\<lambda>_. [1]) [1]"

abbreviation ex_stall :: "nat ext" where
  "ex_stall \<equiv> ex_ext 4 (\<lambda>_. [1]) [1]"

abbreviation ex_stalled3 :: "nat DATA" where
  "ex_stalled3 \<equiv>
     solveHybrd_pass ex_stall (solveHybrd_pass ex_stall (solveHybrd_pass ex_stall
       (solveHybrd_init ex_stall ex_data)))"

text \<open>
  Stand-ins for the linear wrapper: the assembly callbacks write a given matrix and
  right-hand side; the stand-in for \<^verbatim>\<open>dgesv_\<close> is exact on diagonal matrices, where
  the pivots are the diagonal entries: the status is the 1-based index of the first
  zero on the diagonal (LAPACK: \<open>U(i,i)\<close> is exactly zero), or 0 and then the solution
  overwrites the right-hand side.
\<close>

definition diag_status :: "vec \<Rightarrow> nat \<Rightarrow> nat \<Rightarrow> int" where
  "diag_status A n lda =
     (case find (\<lambda>i. A ! (i + i * lda) = 0) [0..<n] of None \<Rightarrow> 0 | Some i \<Rightarrow> int i + 1)"

definition ex_dgesv ::
  "nat \<Rightarrow> int \<Rightarrow> vec \<Rightarrow> nat \<Rightarrow> int list \<Rightarrow> vec \<Rightarrow> nat \<Rightarrow> vec \<times> int list \<times> vec \<times> int" where
  "ex_dgesv n nrhs A lda ipiv b ldb =
     (if diag_status A n lda = 0
      then (A, map (\<lambda>i. int i + 1) [0..<n], map (\<lambda>i. b ! i / A ! (i + i * lda)) [0..<n], 0)
      else (A, map (\<lambda>i. int i + 1) [0..<n], b, diag_status A n lda))"

definition ex_lapack :: "vec \<Rightarrow> vec \<Rightarrow> nat lapack_ext" where
  "ex_lapack A b =
     \<lparr>setA = (\<lambda>s. (A, Suc (ls_env s))), setb = (\<lambda>s. (b, Suc (ls_env s))), dgesv = ex_dgesv\<rparr>"

definition ex_linear :: "nat LINEAR_SYSTEM_DATA" where
  "ex_linear =
     \<lparr>ls_size = 2, ls_A = [9, 9, 9, 9], ls_b = [9, 9], ls_x = [9, 9], ls_ipiv = [0, 0],
      ls_nrhs = 1, ls_info = 0, ls_env = 0, ls_messages = []\<rparr>"

section \<open>Frame and budget lemmas, termination of the loop\<close>

lemma upd_each_Suc:
  "upd_each (Suc n) g v = (upd_each n g v)[n := g n (upd_each n g v ! n)]"
  by (simp add: upd_each_def)

lemma length_upd_each [simp]: "length (upd_each n g v) = length v"
  by (induction n) (simp_all add: upd_each_Suc, simp add: upd_each_def)

lemma upd_each_nth:
  "k < length v \<Longrightarrow> upd_each n g v ! k = (if k < n then g k (v ! k) else v ! k)"
proof (induction n)
  case 0
  then show ?case by (simp add: upd_each_def)
next
  case (Suc n)
  then show ?case
    by (auto simp add: upd_each_Suc nth_list_update less_Suc_eq)
qed

lemma call_wrapper_fields:
  "giveUp (call_wrapper E s) = giveUp s"
  "success (call_wrapper E s) = success s"
  "retries (call_wrapper E s) = retries s"
  "retries2 (call_wrapper E s) = retries2 s"
  "retries3 (call_wrapper E s) = retries3 s"
  "local_tol (call_wrapper E s) = local_tol s"
  "h_info (call_wrapper E s) = h_info s"
  "found_solution (call_wrapper E s) = found_solution s"
  "h_n (call_wrapper E s) = h_n s"
  "h_useXScaling (call_wrapper E s) = h_useXScaling s"
  "h_resScaling (call_wrapper E s) = h_resScaling s"
  "h_fjacobian (call_wrapper E s) = h_fjacobian s"
  "messages (call_wrapper E s) = messages s"
  "discreteCall (call_wrapper E s) = discreteCall s"
  by (simp_all add: call_wrapper_def wrapper_fvec_hybrd_def split: prod.splits)

lemma evaluate_discrete_fields:
  "giveUp (evaluate_discrete E s) = giveUp s"
  "success (evaluate_discrete E s) = success s"
  "retries (evaluate_discrete E s) = retries s"
  "retries2 (evaluate_discrete E s) = retries2 s"
  "retries3 (evaluate_discrete E s) = retries3 s"
  "local_tol (evaluate_discrete E s) = local_tol s"
  "h_info (evaluate_discrete E s) = h_info s"
  "found_solution (evaluate_discrete E s) = found_solution s"
  "h_n (evaluate_discrete E s) = h_n s"
  "h_useXScaling (evaluate_discrete E s) = h_useXScaling s"
  "h_resScaling (evaluate_discrete E s) = h_resScaling s"
  "h_fjacobian (evaluate_discrete E s) = h_fjacobian s"
  "messages (evaluate_discrete E s) = messages s"
  by (simp_all add: evaluate_discrete_def store_relations_def call_wrapper_fields)

lemma attempt_fields:
  "giveUp (hybrd_attempt E s) = True"
  "success (hybrd_attempt E s) = success s"
  "retries (hybrd_attempt E s) = retries s"
  "retries2 (hybrd_attempt E s) = retries2 s"
  "retries3 (hybrd_attempt E s) = retries3 s"
  "local_tol (hybrd_attempt E s) = local_tol s"
  "h_n (hybrd_attempt E s) = h_n s"
  "h_useXScaling (hybrd_attempt E s) = h_useXScaling s"
  by (simp_all add: hybrd_attempt_def check_for_error_def scaling_residual_vector_def
      evaluate_discrete_fields check_proper_inputs_def rescaling_x_vector_def call_hybrd_def
      store_hybrd_out_def set_continuous_def scaling_x_vector_def)

lemma reclassify_fields:
  "giveUp (reclassify s) = giveUp s"
  "success (reclassify s) = success s"
  "retries (reclassify s) = retries s"
  "retries2 (reclassify s) = retries2 s"
  "retries3 (reclassify s) = retries3 s"
  "local_tol (reclassify s) = local_tol s"
  "xerror (reclassify s) = xerror s"
  "xerror_scaled (reclassify s) = xerror_scaled s"
  "h_n (reclassify s) = h_n s"
  "h_useXScaling (reclassify s) = h_useXScaling s"
  "found_solution (reclassify s) = found_solution s"
  "h_fvec (reclassify s) = h_fvec s"
  "h_resScaling (reclassify s) = h_resScaling s"
  "h_fjacobian (reclassify s) = h_fjacobian s"
  by (simp_all add: reclassify_def)

lemma recovery_fields:
  "h_info (recovery s) = h_info s"
  "h_n (recovery s) = h_n s"
  "xerror (recovery s) = xerror s"
  "xerror_scaled (recovery s) = xerror_scaled s"
  "h_fvec (recovery s) = h_fvec s"
  "h_resScaling (recovery s) = h_resScaling s"
  "h_fjacobian (recovery s) = h_fjacobian s"
  by (simp_all add: recovery_def)

text \<open>A pass that does not end the loop has used up one unit of the budget.\<close>

lemma recovery_budget:
  assumes g: "giveUp s"
  shows "giveUp (recovery s) \<or> budget (recovery s) < budget s"
proof (cases "h_info s = 1 \<or> xerror s \<le> local_tol s \<or> xerror_scaled s \<le> local_tol s")
  case True
  then show ?thesis using g unfolding recovery_def by simp
next
  case nc: False
  show ?thesis
  proof (cases "h_info s = 4 \<or> h_info s = 5")
    case False
    then show ?thesis using g nc unfolding recovery_def by simp
  next
    case True
    then have st: "(h_info s = 4 \<or> h_info s = 5) = True" by simp
    show ?thesis using nc g unfolding recovery_def st budget_def
      by auto
  qed
qed

lemma budget_attempt: "budget (reclassify (hybrd_attempt E s)) = budget s"
  by (simp add: budget_def reclassify_fields attempt_fields)

lemma pass_decreases:
  "\<not> giveUp s \<Longrightarrow> \<not> success s \<Longrightarrow> passes_left (solveHybrd_pass E s) < passes_left s"
  using recovery_budget[of "reclassify (hybrd_attempt E s)"]
  by (auto simp add: passes_left_def solveHybrd_pass_def reclassify_fields attempt_fields
      budget_attempt)

termination solveHybrd_loop
  by (relation "measure (\<lambda>(E, s). passes_left s)") (simp_all add: pass_decreases)

termination solveHybrd_passes
  by (relation "measure (\<lambda>(E, s). passes_left s)") (simp_all add: pass_decreases)

declare solveHybrd_loop.simps [simp del] solveHybrd_passes.simps [simp del]

lemma recovery_success:
  "success (recovery s) =
     (success s \<or> h_info s = 1 \<or> xerror s \<le> local_tol s \<or> xerror_scaled s \<le> local_tol s)"
  by (simp add: recovery_def)

lemma recovery_accept_tol:
  "h_info s = 1 \<or> xerror s \<le> local_tol s \<or> xerror_scaled s \<le> local_tol s
   \<Longrightarrow> local_tol (recovery s) = local_tol s"
  by (simp add: recovery_def)

lemma loop_step:
  "\<not> giveUp s \<Longrightarrow> \<not> success s \<Longrightarrow> solveHybrd_loop E s = solveHybrd_loop E (solveHybrd_pass E s)"
  by (subst solveHybrd_loop.simps) simp

lemma loop_stop: "giveUp s \<or> success s \<Longrightarrow> solveHybrd_loop E s = s"
  by (subst solveHybrd_loop.simps) auto

lemma passes_step:
  "\<not> giveUp s \<Longrightarrow> \<not> success s \<Longrightarrow> solveHybrd_passes E s = Suc (solveHybrd_passes E (solveHybrd_pass E s))"
  by (subst solveHybrd_passes.simps) simp

lemma passes_stop: "giveUp s \<or> success s \<Longrightarrow> solveHybrd_passes E s = 0"
  by (subst solveHybrd_passes.simps) auto

lemma pass_accepted:
  "\<not> success s \<Longrightarrow> success (solveHybrd_pass E s) \<Longrightarrow>
     h_info (solveHybrd_pass E s) = 1 \<or> xerror (solveHybrd_pass E s) \<le> local_tol (solveHybrd_pass E s)
     \<or> xerror_scaled (solveHybrd_pass E s) \<le> local_tol (solveHybrd_pass E s)"
  by (simp add: solveHybrd_pass_def recovery_success recovery_fields
      recovery_accept_tol reclassify_fields attempt_fields)

lemma loop_accepted:
  "(success s \<longrightarrow> h_info s = 1 \<or> xerror s \<le> local_tol s \<or> xerror_scaled s \<le> local_tol s)
   \<Longrightarrow> success (solveHybrd_loop E s)
   \<Longrightarrow> h_info (solveHybrd_loop E s) = 1 \<or> xerror (solveHybrd_loop E s) \<le> local_tol (solveHybrd_loop E s)
       \<or> xerror_scaled (solveHybrd_loop E s) \<le> local_tol (solveHybrd_loop E s)"
proof (induction E s rule: solveHybrd_loop.induct)
  case (1 E s)
  show ?case
  proof (cases "\<not> giveUp s \<and> \<not> success s")
    case True
    then have eq: "solveHybrd_loop E s = solveHybrd_loop E (solveHybrd_pass E s)"
      by (simp add: loop_step)
    from True have "success (solveHybrd_pass E s) \<longrightarrow>
        h_info (solveHybrd_pass E s) = 1 \<or> xerror (solveHybrd_pass E s) \<le> local_tol (solveHybrd_pass E s)
        \<or> xerror_scaled (solveHybrd_pass E s) \<le> local_tol (solveHybrd_pass E s)"
      using pass_accepted by blast
    with "1.IH"[OF True] "1.prems"(2) show ?thesis unfolding eq by blast
  next
    case False
    then have "solveHybrd_loop E s = s" by (simp add: loop_stop)
    with "1.prems" show ?thesis by simp
  qed
qed

lemma init_fields:
  "success (solveHybrd_init E s) = False"
  "giveUp (solveHybrd_init E s) = False"
  "retries (solveHybrd_init E s) = 0"
  "retries2 (solveHybrd_init E s) = 0"
  "retries3 (solveHybrd_init E s) = 0"
  "local_tol (solveHybrd_init E s) = 1 / 10 ^ 12"
  by (simp_all add: solveHybrd_init_def evaluate_with_discontinuities_def call_wrapper_fields
      set_x_vector_def solveHybrd_locals_def)

text \<open>The definitions that evaluate the model on the stand-ins.\<close>

lemmas ex_eval = ex_data_def ex_ext_def ex_residual_def ex_hybrd_def
  hybrd_attempt_def wrapper_fvec_hybrd_def upd_each_def call_wrapper_def
  scaling_residual_vector_def resScaling_row_def resScaling_start_def resScaling_finish_def
  enorm_def evaluate_with_discontinuities_def evaluate_discrete_def store_relations_def
  solveHybrd_init_def solveHybrd_locals_def set_x_vector_def memcpy_def
  scaling_x_vector_def set_continuous_def call_hybrd_def store_hybrd_out_def
  rescaling_x_vector_def check_proper_inputs_def check_for_error_def

lemma check_for_error_fields:
  "h_info (check_for_error s) = h_info s"
  "found_solution (check_for_error s) = found_solution s"
  "messages (check_for_error s) = messages s"
  "h_fvec (check_for_error s) = h_fvec s"
  "h_resScaling (check_for_error s) = h_resScaling s"
  "h_fjacobian (check_for_error s) = h_fjacobian s"
  "h_n (check_for_error s) = h_n s"
  "xerror_scaled (check_for_error s) = enorm (h_n s) (h_resScaling s)"
  "xerror (check_for_error s) = enorm (h_n s) (h_fvec s)"
  by (simp_all add: check_for_error_def)

lemma scaling_residual_vector_fields:
  "h_info (scaling_residual_vector s) = h_info s"
  "found_solution (scaling_residual_vector s) = found_solution s"
  "messages (scaling_residual_vector s) = messages s"
  "h_fvec (scaling_residual_vector s) = h_fvec s"
  "h_fjacobian (scaling_residual_vector s) = h_fjacobian s"
  "h_n (scaling_residual_vector s) = h_n s"
  by (simp_all add: scaling_residual_vector_def)

lemma check_proper_inputs_fields:
  "h_info (check_proper_inputs s) = h_info s"
  "found_solution (check_proper_inputs s) = (if h_info s = 0 then - 1 else found_solution s)"
  "messages (check_proper_inputs s) =
     (if h_info s = 0 then messages s @ [IMPROPER_INPUT] else messages s)"
  "h_resScaling (check_proper_inputs s) = h_resScaling s"
  by (simp_all add: check_proper_inputs_def)

lemma rescaling_x_vector_fields:
  "h_info (rescaling_x_vector s) = h_info s"
  "found_solution (rescaling_x_vector s) = found_solution s"
  "messages (rescaling_x_vector s) = messages s"
  "h_resScaling (rescaling_x_vector s) = h_resScaling s"
  by (simp_all add: rescaling_x_vector_def)

lemma call_hybrd_fields:
  "h_info (call_hybrd E s) = o_info (omc_hybrd E (wrapper_fvec_hybrd E) s)"
  "found_solution (call_hybrd E s) = found_solution s"
  "messages (call_hybrd E s) = messages s"
  "h_resScaling (call_hybrd E s) = h_resScaling s"
  by (simp_all add: call_hybrd_def store_hybrd_out_def)

lemma set_continuous_fields:
  "found_solution (set_continuous s) = found_solution s"
  "messages (set_continuous s) = messages s"
  "h_resScaling (set_continuous s) = h_resScaling s"
  by (simp_all add: set_continuous_def)

lemma scaling_x_vector_fields:
  "found_solution (scaling_x_vector s) = found_solution s"
  "messages (scaling_x_vector s) = messages s"
  "h_resScaling (scaling_x_vector s) = h_resScaling s"
  by (simp_all add: scaling_x_vector_def)

lemmas block_fields = check_for_error_fields scaling_residual_vector_fields
  evaluate_discrete_fields check_proper_inputs_fields rescaling_x_vector_fields
  call_hybrd_fields set_continuous_fields scaling_x_vector_fields

text \<open>The code of a pass is the one that the root-finder returned.\<close>

lemma attempt_info:
  "h_info (hybrd_attempt E s) =
     o_info (omc_hybrd E (wrapper_fvec_hybrd E) (set_continuous (scaling_x_vector s)))"
  by (simp add: hybrd_attempt_def block_fields)

lemma attempt_improper:
  "found_solution (hybrd_attempt E s) =
     (if h_info (hybrd_attempt E s) = 0 then - 1 else found_solution s)"
  "messages (hybrd_attempt E s) =
     (if h_info (hybrd_attempt E s) = 0 then messages s @ [IMPROPER_INPUT] else messages s)"
  by (simp_all add: hybrd_attempt_def block_fields)


lemmas pass_eval = solveHybrd_pass_def reclassify_def recovery_def

lemmas lapack_eval = ex_lapack_def ex_dgesv_def diag_status_def ex_linear_def solveLapack_def
  lapack_status_def solve_system_def update_vector_b_def update_matrix_A_def reset_matrix_A_def
  take_the_solution_def memset0_def memcpy_def upd_each_def eval_nat_numeral

lemma memcpy_nth: "i < n \<Longrightarrow> n \<le> length dst \<Longrightarrow> memcpy dst src n ! i = src ! i"
  by (simp add: memcpy_def upd_each_nth)

lemma length_memcpy [simp]: "length (memcpy dst src n) = length dst"
  by (simp add: memcpy_def)

lemma fold_max_Max:
  "fold (\<lambda>j m. max m (g j)) [0..<n] (a::real) = Max (insert a (g ` {..<n}))"
proof (induction n)
  case 0
  show ?case by simp
next
  case (Suc n)
  have "Max (insert a (g ` {..<Suc n})) = Max (insert (g n) (insert a (g ` {..<n})))"
    by (simp add: lessThan_Suc insert_commute)
  also have "\<dots> = max (g n) (Max (insert a (g ` {..<n})))"
    by (rule Max_insert) simp_all
  finally show ?case using Suc by (simp add: max.commute)
qed

lemma resScaling_row_eq:
  "i < length rs \<Longrightarrow>
   resScaling_row fj n i (rs, l) =
     (rs[i := fold (\<lambda>j m. max m \<bar>fj ! (l + j)\<bar>) [0..<n] (rs ! i)], l + n)"
proof (induction n)
  case 0
  then show ?case by (simp add: resScaling_row_def)
next
  case (Suc n)
  have "resScaling_row fj (Suc n) i (rs, l) =
      (\<lambda>(rs, l). (rs[i := (if \<bar>fj ! l\<bar> > rs ! i then \<bar>fj ! l\<bar> else rs ! i)], l + 1))
        (resScaling_row fj n i (rs, l))"
    by (simp add: resScaling_row_def)
  with Suc show ?case by (simp add: max_def)
qed

text \<open>The largest of \<open>1e-16\<close> and the absolute values of the \<open>n\<close> entries from \<open>l\<close> on.\<close>

lemma resScaling_entry:
  assumes "i < length rs"
  shows "resScaling_finish fvec i (resScaling_row fj n i (resScaling_start i (rs, l))) =
     (rs[i := fvec ! i * (1 / Max (insert (1 / 10 ^ 16) ((\<lambda>j. \<bar>fj ! (l + j)\<bar>) ` {..<n})))], l + n)"
proof -
  have "resScaling_row fj n i (resScaling_start i (rs, l)) =
      (rs[i := Max (insert (1 / 10 ^ 16) ((\<lambda>j. \<bar>fj ! (l + j)\<bar>) ` {..<n}))], l + n)"
    using assms by (simp add: resScaling_start_def resScaling_row_eq fold_max_Max)
  then show ?thesis
    using assms by (simp add: resScaling_finish_def)
qed

lemma resScaling_loop:
  assumes "m \<le> length rs"
  shows "\<exists>rs'. fold (\<lambda>i acc. resScaling_finish fvec i (resScaling_row fj n i (resScaling_start i acc)))
              [0..<m] (rs, 0) = (rs', m * n)
          \<and> length rs' = length rs
          \<and> (\<forall>k<length rs. rs' ! k =
                (if k < m
                 then fvec ! k * (1 / Max (insert (1 / 10 ^ 16) ((\<lambda>j. \<bar>fj ! (k * n + j)\<bar>) ` {..<n})))
                 else rs ! k))"
  using assms
proof (induction m)
  case 0
  then show ?case by simp
next
  case (Suc m)
  then obtain rs' where
    f: "fold (\<lambda>i acc. resScaling_finish fvec i (resScaling_row fj n i (resScaling_start i acc)))
              [0..<m] (rs, 0) = (rs', m * n)"
    and l: "length rs' = length rs"
    and v: "\<forall>k<length rs. rs' ! k =
                (if k < m
                 then fvec ! k * (1 / Max (insert (1 / 10 ^ 16) ((\<lambda>j. \<bar>fj ! (k * n + j)\<bar>) ` {..<n})))
                 else rs ! k)"
    by auto
  from Suc.prems l have m: "m < length rs'" by simp
  show ?case
    using l v m
    by (auto simp add: f resScaling_entry[OF m] nth_list_update less_Suc_eq)
qed

lemma scaling_residual_vector_nth:
  assumes "i < h_n s" "h_n s \<le> length (h_resScaling s)"
  shows "h_resScaling (scaling_residual_vector s) ! i =
     h_fvec s ! i * (1 / Max (insert (1 / 10 ^ 16) ((\<lambda>j. \<bar>h_fjacobian s ! (i * h_n s + j)\<bar>) ` {..<h_n s})))"
proof -
  from resScaling_loop[OF assms(2), of "h_fvec s" "h_fjacobian s" "h_n s"] assms
  show ?thesis
    by (auto simp add: scaling_residual_vector_def)
qed


lemma attempt_resScaling:
  "hybrd_attempt E s = check_for_error (scaling_residual_vector s') \<and> h_n s' = h_n s
     \<and> h_resScaling s' = h_resScaling s"
  if "s' = evaluate_discrete E (check_proper_inputs (rescaling_x_vector (call_hybrd E
           (set_continuous (scaling_x_vector s)))))"
  unfolding that
  by (simp add: hybrd_attempt_def block_fields check_proper_inputs_def rescaling_x_vector_def
      call_hybrd_def store_hybrd_out_def set_continuous_def scaling_x_vector_def)

lemma enorm_sum: "enorm n v = sqrt (\<Sum>k<n. (v ! k)\<^sup>2)"
  by (simp add: enorm_def interv_sum_list_conv_sum_set_nat atLeast0LessThan)

lemma call_wrapper_frame:
  "nlsx (call_wrapper E s) = nlsx s"
  "initial_factor (call_wrapper E s) = initial_factor s"
  by (simp_all add: call_wrapper_def wrapper_fvec_hybrd_def split: prod.splits)

lemma attempt_frame:
  "nlsx (hybrd_attempt E s) = nlsx s"
  "initial_factor (hybrd_attempt E s) = initial_factor s"
  by (simp_all add: hybrd_attempt_def check_for_error_def scaling_residual_vector_def
      evaluate_discrete_def store_relations_def call_wrapper_frame check_proper_inputs_def
      rescaling_x_vector_def call_hybrd_def store_hybrd_out_def set_continuous_def
      scaling_x_vector_def)

lemma recovery_frame:
  "nlsx (recovery s) = nlsx s"
  "initial_factor (recovery s) = initial_factor s"
  by (simp_all add: recovery_def)

lemma pass_frame:
  "nlsx (solveHybrd_pass E s) = nlsx s"
  "initial_factor (solveHybrd_pass E s) = initial_factor s"
  "h_n (solveHybrd_pass E s) = h_n s"
  by (simp_all add: solveHybrd_pass_def recovery_frame recovery_fields reclassify_def
      attempt_frame attempt_fields)

lemma loop_frame:
  "nlsx (solveHybrd_loop E s) = nlsx s \<and> initial_factor (solveHybrd_loop E s) = initial_factor s
   \<and> h_n (solveHybrd_loop E s) = h_n s"
proof (induction E s rule: solveHybrd_loop.induct)
  case (1 E s)
  show ?case
  proof (cases "\<not> giveUp s \<and> \<not> success s")
    case True
    with "1.IH" show ?thesis by (simp add: loop_step pass_frame)
  next
    case False
    then show ?thesis by (simp add: loop_stop)
  qed
qed

lemma init_frame:
  "nlsx (solveHybrd_init E s) = nlsx s"
  "initial_factor (solveHybrd_init E s) = h_factor s"
  "h_n (solveHybrd_init E s) = h_n s"
  by (simp_all add: solveHybrd_init_def evaluate_with_discontinuities_def call_wrapper_frame
      call_wrapper_fields set_x_vector_def solveHybrd_locals_def)

lemma lapack_frame:
  "ls_size (snd (lapack_status s)) = ls_size s"
  "ls_x (snd (lapack_status s)) = ls_x s"
  "ls_b (snd (lapack_status s)) = ls_b s"
  "ls_size (solve_system L s) = ls_size s"
  "ls_x (solve_system L s) = ls_x s"
  "ls_size (update_vector_b L s) = ls_size s"
  "ls_x (update_vector_b L s) = ls_x s"
  "ls_size (update_matrix_A L s) = ls_size s"
  "ls_x (update_matrix_A L s) = ls_x s"
  "ls_size (reset_matrix_A s) = ls_size s"
  "ls_x (reset_matrix_A s) = ls_x s"
  by (simp_all add: lapack_status_def solve_system_def update_vector_b_def update_matrix_A_def
      reset_matrix_A_def split: prod.splits)

text \<open>The three ways in which the status is classified, and what is reported.\<close>

lemma lapack_classification:
  "fst (lapack_status s) = (ls_info s = 0)"
  "ls_messages (snd (lapack_status s)) =
     (if ls_info s < 0 then ls_messages s @ [Argument_illegal (ls_info s)]
      else if ls_info s > 0 then ls_messages s @ [Singular_for_U (ls_info s + 1) (ls_info s + 1)]
      else ls_messages s)"
  "ls_info (snd (lapack_status s)) = ls_info s"
  by (auto simp add: lapack_status_def)

text \<open>An improper-input run of the stand-ins ends after one pass without success.\<close>

lemma ex_improper_run:
  "solveHybrd_loop (ex_improper) (solveHybrd_init (ex_improper) ex_data)
     = solveHybrd_pass (ex_improper) (solveHybrd_init (ex_improper) ex_data)"
  "\<not> success (solveHybrd_pass (ex_improper) (solveHybrd_init (ex_improper) ex_data))"
  "h_x (solveHybrd_pass (ex_improper) (solveHybrd_init (ex_improper) ex_data)) = [3]"
proof -
  let ?E = "ex_improper"
  let ?s = "solveHybrd_init ?E ex_data"
  have p: "giveUp (solveHybrd_pass ?E ?s)" "\<not> success (solveHybrd_pass ?E ?s)"
    "h_x (solveHybrd_pass ?E ?s) = [3]"
    by (simp_all add: ex_eval pass_eval)
  have "solveHybrd_loop ?E ?s = solveHybrd_loop ?E (solveHybrd_pass ?E ?s)"
    by (rule loop_step) (simp_all add: init_fields)
  also have "\<dots> = solveHybrd_pass ?E ?s"
    using p by (simp add: loop_stop)
  finally show "solveHybrd_loop ?E ?s = solveHybrd_pass ?E ?s" .
  from p show "\<not> success (solveHybrd_pass ?E ?s)" "h_x (solveHybrd_pass ?E ?s) = [3]"
    by simp_all
qed

lemma passes_bound: "solveHybrd_passes E s \<le> passes_left s"
proof (induction E s rule: solveHybrd_passes.induct)
  case (1 E s)
  show ?case
  proof (cases "\<not> giveUp s \<and> \<not> success s")
    case True
    with "1.IH" pass_decreases[of s E] show ?thesis
      by (simp add: passes_step)
  next
    case False
    then show ?thesis by (simp add: passes_stop)
  qed
qed

lemma loop_exit: "giveUp (solveHybrd_loop E s) \<or> success (solveHybrd_loop E s)"
proof (induction E s rule: solveHybrd_loop.induct)
  case (1 E s)
  show ?case
  proof (cases "\<not> giveUp s \<and> \<not> success s")
    case True
    with "1.IH" show ?thesis by (simp add: loop_step)
  next
    case False
    then show ?thesis by (auto simp add: loop_stop)
  qed
qed

text \<open>A pass that stalls without meeting the tolerance uses exactly one unit of the budget.\<close>

lemma recovery_stalled:
  assumes "giveUp c" "\<not> success c" "h_info c = 4"
    "local_tol c < xerror c" "local_tol c < xerror_scaled c"
  shows "(if budget c = 0 then giveUp (recovery c)
          else \<not> giveUp (recovery c) \<and> Suc (budget (recovery c)) = budget c)
         \<and> \<not> success (recovery c)"
proof -
  have nc: "\<not> (h_info c = 1 \<or> xerror c \<le> local_tol c \<or> xerror_scaled c \<le> local_tol c)"
    using assms by simp
  have st: "(h_info c = 4 \<or> h_info c = 5) = True" using assms by simp
  show ?thesis
    using nc assms(1,2,3) unfolding recovery_def st budget_def
    by auto
qed

lemma pow10_step: "r < 7 \<Longrightarrow> (10::real) ^ nat (7 - r) = 10 * 10 ^ nat (6 - r)"
proof -
  assume "r < 7"
  then have "nat (7 - r) = Suc (nat (6 - r))" by simp
  then show ?thesis by simp
qed

lemma recovery_tol:
  assumes "h_info c = 4" "local_tol c < xerror c" "local_tol c < xerror_scaled c"
    "0 < local_tol c"
  shows "0 < local_tol (recovery c)
     \<and> local_tol (recovery c) * 10 ^ nat (7 - retries3 (recovery c))
         \<le> local_tol c * 10 ^ nat (7 - retries3 c)"
proof -
  have nc: "\<not> (h_info c = 1 \<or> xerror c \<le> local_tol c \<or> xerror_scaled c \<le> local_tol c)"
    using assms by simp
  have st: "(h_info c = 4 \<or> h_info c = 5) = True" using assms by simp
  show ?thesis
    using nc assms(1,4) unfolding recovery_def st
    by (auto simp add: pow10_step)
qed


lemma scaling_residual_vector_length:
  assumes "h_n s \<le> length (h_resScaling s)"
  shows "length (h_resScaling (scaling_residual_vector s)) = length (h_resScaling s)"
proof -
  from resScaling_loop[OF assms, of "h_fvec s" "h_fjacobian s" "h_n s"]
  show ?thesis by (auto simp add: scaling_residual_vector_def)
qed

text \<open>
  What an attempt with the stand-ins leaves: the residual of the callback and the
  Jacobian estimate and the code of the root-finder stand-in.
\<close>

lemma ex_call_wrapper_fvec: "h_fvec (call_wrapper (ex_ext code (\<lambda>_. v) fj) s) = v"
  by (simp add: call_wrapper_def wrapper_fvec_hybrd_def ex_ext_def ex_residual_def)

lemma ex_call_hybrd:
  "h_fvec (call_hybrd (ex_ext code (\<lambda>_. v) fj) s) = v"
  "h_fjacobian (call_hybrd (ex_ext code (\<lambda>_. v) fj) s) = fj"
  "h_info (call_hybrd (ex_ext code (\<lambda>_. v) fj) s) = code"
  by (simp_all add: call_hybrd_def store_hybrd_out_def ex_ext_def ex_hybrd_def
      wrapper_fvec_hybrd_def ex_residual_def)

lemma ex_before_scaling:
  assumes "s' = evaluate_discrete (ex_ext code (\<lambda>_. v) fj) (check_proper_inputs
     (rescaling_x_vector (call_hybrd (ex_ext code (\<lambda>_. v) fj) (set_continuous (scaling_x_vector s)))))"
  shows "h_fvec s' = v" "h_fjacobian s' = fj" "h_info s' = code"
proof -
  have "h_fvec (check_proper_inputs (rescaling_x_vector (call_hybrd (ex_ext code (\<lambda>_. v) fj) t))) = v"
    for t
    by (simp add: check_proper_inputs_def rescaling_x_vector_def ex_call_hybrd)
  then show "h_fvec s' = v"
    unfolding assms by (simp add: evaluate_discrete_def store_relations_def ex_call_wrapper_fvec)
  have "h_fjacobian (check_proper_inputs (rescaling_x_vector (call_hybrd (ex_ext code (\<lambda>_. v) fj) t))) = fj"
    "h_info (check_proper_inputs (rescaling_x_vector (call_hybrd (ex_ext code (\<lambda>_. v) fj) t))) = code"
    for t
    by (simp_all add: check_proper_inputs_def rescaling_x_vector_def ex_call_hybrd)
  then show "h_fjacobian s' = fj" "h_info s' = code"
    unfolding assms by (simp_all add: evaluate_discrete_fields)
qed

text \<open>The stand-in that always reports code 4 with the residual \<open>[1]\<close>.\<close>

lemma ex_stall_attempt:
  assumes "h_n s = 1" "length (h_resScaling s) = 1"
  shows "h_info (hybrd_attempt (ex_stall) s) = 4"
    "xerror (hybrd_attempt (ex_stall) s) = 1"
    "xerror_scaled (hybrd_attempt (ex_stall) s) = 1"
    "length (h_resScaling (hybrd_attempt (ex_stall) s)) = 1"
proof -
  let ?E = "ex_stall"
  define s' where "s' = evaluate_discrete ?E (check_proper_inputs
     (rescaling_x_vector (call_hybrd ?E (set_continuous (scaling_x_vector s)))))"
  note a = attempt_resScaling[OF s'_def]
  note b = ex_before_scaling[OF s'_def]
  from a assms have n: "h_n s' = Suc 0" "h_n s' \<le> length (h_resScaling s')" "0 < h_n s'"
    by simp_all
  have v: "h_resScaling (scaling_residual_vector s') ! 0 = 1"
    using scaling_residual_vector_nth[OF n(3) n(2)] by (simp add: b n(1) lessThan_Suc)
  have l: "length (h_resScaling (scaling_residual_vector s')) = 1"
    using scaling_residual_vector_length[OF n(2)] a assms by simp
  have e: "hybrd_attempt ?E s = check_for_error (scaling_residual_vector s')"
    using a by simp
  show "h_info (hybrd_attempt ?E s) = 4"
    unfolding e by (simp add: b check_for_error_fields scaling_residual_vector_fields)
  show "xerror (hybrd_attempt ?E s) = 1"
    unfolding e
    by (simp add: b n(1) check_for_error_fields scaling_residual_vector_fields enorm_def)
  show "xerror_scaled (hybrd_attempt ?E s) = 1"
    unfolding e
    by (simp add: v n(1) check_for_error_fields scaling_residual_vector_fields enorm_def)
  show "length (h_resScaling (hybrd_attempt ?E s)) = 1"
    unfolding e using l by (simp add: check_for_error_fields)
qed

lemma ex_stall_passes:
  assumes "h_n s = 1" "length (h_resScaling s) = 1" "0 < local_tol s"
    "local_tol s * 10 ^ nat (7 - retries3 s) < 1" "\<not> giveUp s" "\<not> success s"
  shows "solveHybrd_passes (ex_stall) s = Suc (budget s)"
  using assms
proof (induction "budget s" arbitrary: s rule: less_induct)
  case less
  let ?E = "ex_stall"
  let ?c = "hybrd_attempt ?E s"
  note a = ex_stall_attempt[OF less.prems(1,2)]
  have r: "reclassify ?c = ?c" using a(1) by (simp add: reclassify_def)
  have p: "solveHybrd_pass ?E s = recovery ?c" by (simp add: solveHybrd_pass_def r)
  have "1 \<le> (10::real) ^ nat (7 - retries3 s)" by simp
  with less.prems(3) have "local_tol s * 1 \<le> local_tol s * 10 ^ nat (7 - retries3 s)"
    by (intro mult_left_mono) simp_all
  with less.prems(4) have t1: "local_tol s < 1" by simp
  have c: "giveUp ?c" "\<not> success ?c" "local_tol ?c < xerror ?c" "local_tol ?c < xerror_scaled ?c"
    "0 < local_tol ?c" "budget ?c = budget s" "retries3 ?c = retries3 s" "local_tol ?c = local_tol s"
    using less.prems t1 a by (simp_all add: attempt_fields budget_def)
  note st = recovery_stalled[OF c(1,2) a(1) c(3,4)]
  note tl = recovery_tol[OF a(1) c(3,4,5)]
  show ?case
  proof (cases "budget s = 0")
    case True
    with st c(6) have "giveUp (solveHybrd_pass ?E s)" by (simp add: p)
    then have "solveHybrd_passes ?E (solveHybrd_pass ?E s) = 0" by (simp add: passes_stop)
    with True less.prems(5,6) show ?thesis by (simp add: passes_step)
  next
    case False
    with st c(6) have g: "\<not> giveUp (solveHybrd_pass ?E s)" "\<not> success (solveHybrd_pass ?E s)"
      and b: "Suc (budget (solveHybrd_pass ?E s)) = budget s"
      by (simp_all add: p)
    have i: "h_n (solveHybrd_pass ?E s) = 1" "length (h_resScaling (solveHybrd_pass ?E s)) = 1"
      using less.prems(1) a(4) by (simp_all add: p recovery_fields attempt_fields)
    have t: "0 < local_tol (solveHybrd_pass ?E s)"
      "local_tol (solveHybrd_pass ?E s) * 10 ^ nat (7 - retries3 (solveHybrd_pass ?E s)) < 1"
      using tl less.prems(4) c(7,8) by (simp_all add: p)
    from b have "budget (solveHybrd_pass ?E s) < budget s" by simp
    from less.hyps[OF this i t g] b less.prems(5,6) show ?thesis
      by (simp add: passes_step)
  qed
qed

text \<open>
  The branch that clears \<^verbatim>\<open>useXScaling\<close> is never taken: its guard \<open>retries < 4\<close>
  comes after the guard \<open>retries < 5\<close> of the branch before it.
\<close>

lemma scaling_never_disabled: "h_useXScaling s \<Longrightarrow> h_useXScaling (recovery s)"
proof (cases "h_info s = 4 \<or> h_info s = 5")
  case True
  then have st: "(h_info s = 4 \<or> h_info s = 5) = True" by simp
  assume "h_useXScaling s"
  then show ?thesis unfolding recovery_def st by auto
next
  case False
  assume "h_useXScaling s"
  with False show ?thesis unfolding recovery_def by simp
qed

text \<open>The counting function counts the passes of the loop.\<close>

lemma loop_funpow:
  "solveHybrd_loop E s = (solveHybrd_pass E ^^ solveHybrd_passes E s) s"
proof (induction E s rule: solveHybrd_loop.induct)
  case (1 E s)
  show ?case
  proof (cases "\<not> giveUp s \<and> \<not> success s")
    case True
    with "1.IH" show ?thesis
      by (simp add: loop_step passes_step funpow_swap1)
  next
    case False
    then show ?thesis by (simp add: loop_stop passes_stop)
  qed
qed

section \<open>The claims\<close>

text \<open>
  C1 (order of the tiers). The source tests \<open>retries < 5\<close> (vary the iterate) before
  \<open>retries < 4\<close> (deactivate the scaling). With a root-finder that stalls on every
  call, the fourth pass starts with \<open>retries = 3\<close> and the scaling on; it ends with the
  iterate moved from \<open>[3]\<close> to \<open>[3 + 2 * 0.1]\<close> and the scaling still on, where the
  table of the specification has the scaling switched off first.
\<close>

theorem tier_order_fourth_pass:
  "retries ex_stalled3 = 3
   \<and> h_useXScaling ex_stalled3
   \<and> h_x ex_stalled3 = [3]
   \<and> h_info (solveHybrd_pass ex_stall ex_stalled3) = 4
   \<and> retries (solveHybrd_pass ex_stall ex_stalled3) = 4
   \<and> h_useXScaling (solveHybrd_pass ex_stall ex_stalled3)
   \<and> h_x (solveHybrd_pass ex_stall ex_stalled3) = [3 + 2 * (1 / 10)]"
proof -
  have p3: "ex_stalled3 =
    \<lparr>h_n = 1, h_x = [3], h_fvec = [1], h_diag = [1], h_mode = 1,
      h_factor = 1 / 10, h_info = 4, h_nfev = 1, h_fjacobian = [1],
      h_resScaling = [1], h_useXScaling = True, nlsx = [5], nlsxOld = [7],
      nlsxExtrapolation = [3], nlsxScaling = [2], discreteCall = False,
      solveContinuous = False, found_solution = 0, initial = False,
      iflag = 0, xerror = 1, xerror_scaled = 1, success = False,
      local_tol = 1 / 10 ^ 12, initial_factor = 100, nfunc_evals = 3,
      giveUp = False, retries = 3, retries2 = 0, retries3 = 0,
      env = 4, messages = []\<rparr>"
    by (simp add: ex_eval pass_eval)
  show ?thesis
    unfolding p3 by (simp add: ex_eval pass_eval)
qed

text \<open>
  C2 (convergence test). A pass ends with \<open>success\<close> set exactly when, after the
  reclassification, the termination code is 1 or one of the two norms is within the
  tolerance in effect (the loop only runs a pass with \<open>success\<close> unset). And when
  \<^verbatim>\<open>solveHybrd\<close> returns true, the data it leaves has termination code 1 or one of
  the two norms of the last pass within the tolerance of that pass.
\<close>

theorem convergence_test:
  "(success (solveHybrd_pass E s) =
      (success s \<or> h_info (reclassify (hybrd_attempt E s)) = 1
       \<or> xerror (hybrd_attempt E s) \<le> local_tol s
       \<or> xerror_scaled (hybrd_attempt E s) \<le> local_tol s))
   \<and> (fst (solveHybrd E s) \<longrightarrow>
        h_info (snd (solveHybrd E s)) = 1
        \<or> xerror (snd (solveHybrd E s)) \<le> local_tol (snd (solveHybrd E s))
        \<or> xerror_scaled (snd (solveHybrd E s)) \<le> local_tol (snd (solveHybrd E s)))"
proof
  show "success (solveHybrd_pass E s) =
      (success s \<or> h_info (reclassify (hybrd_attempt E s)) = 1
       \<or> xerror (hybrd_attempt E s) \<le> local_tol s
       \<or> xerror_scaled (hybrd_attempt E s) \<le> local_tol s)"
    by (simp add: solveHybrd_pass_def recovery_success reclassify_fields attempt_fields)
next
  have "success (solveHybrd_loop E (solveHybrd_init E s)) \<Longrightarrow>
      h_info (solveHybrd_loop E (solveHybrd_init E s)) = 1
      \<or> xerror (solveHybrd_loop E (solveHybrd_init E s)) \<le> local_tol (solveHybrd_loop E (solveHybrd_init E s))
      \<or> xerror_scaled (solveHybrd_loop E (solveHybrd_init E s)) \<le> local_tol (solveHybrd_loop E (solveHybrd_init E s))"
    by (rule loop_accepted) (simp_all add: init_fields)
  then show "fst (solveHybrd E s) \<longrightarrow>
        h_info (snd (solveHybrd E s)) = 1
        \<or> xerror (snd (solveHybrd E s)) \<le> local_tol (snd (solveHybrd E s))
        \<or> xerror_scaled (snd (solveHybrd E s)) \<le> local_tol (snd (solveHybrd E s))"
    by (simp add: solveHybrd_def solveHybrd_data_def solveHybrd_exit_def)
qed

theorem convergence_test_witness:
  "fst (solveHybrd (ex_converge) ex_data)
   \<and> xerror (snd (solveHybrd (ex_converge) ex_data)) = 0
   \<and> (h_info (snd (solveHybrd (ex_converge) ex_data)) = 1
        \<or> xerror (snd (solveHybrd (ex_converge) ex_data))
            \<le> local_tol (snd (solveHybrd (ex_converge) ex_data))
        \<or> xerror_scaled (snd (solveHybrd (ex_converge) ex_data))
            \<le> local_tol (snd (solveHybrd (ex_converge) ex_data)))"
proof -
  let ?E = "ex_converge"
  have p: "success (solveHybrd_pass ?E (solveHybrd_init ?E ex_data))"
    "xerror (solveHybrd_pass ?E (solveHybrd_init ?E ex_data)) = 0"
    by (simp_all add: ex_eval pass_eval)
  have l: "solveHybrd_loop ?E (solveHybrd_init ?E ex_data)
      = solveHybrd_pass ?E (solveHybrd_init ?E ex_data)"
    using p by (simp add: loop_step loop_stop init_fields)
  have f: "fst (solveHybrd ?E ex_data)"
    "xerror (snd (solveHybrd ?E ex_data)) = 0"
    using p by (simp_all add: solveHybrd_def solveHybrd_data_def solveHybrd_exit_def l)
  from convergence_test[of ?E ex_data] f show ?thesis by blast
qed

text \<open>
  C3 (always writes back). Whatever the outcome, \<^verbatim>\<open>solveHybrd\<close> leaves in \<^verbatim>\<open>nlsx\<close> the
  first \<open>n\<close> entries of its final iterate and in \<^verbatim>\<open>factor\<close> the value it had on entry,
  and \<^verbatim>\<open>solveLapack\<close> leaves in \<^verbatim>\<open>x\<close> the first \<open>size\<close> entries of the right-hand-side
  buffer as \<^verbatim>\<open>dgesv_\<close> left it (the solution slots hold at least that many entries).
\<close>

theorem always_writes_back:
  assumes "h_n s \<le> length (nlsx s)" and "ls_size t \<le> length (ls_x t)"
  shows "(\<forall>i<h_n s. nlsx (snd (solveHybrd E s)) ! i = h_x (snd (solveHybrd E s)) ! i)
    \<and> h_factor (snd (solveHybrd E s)) = h_factor s
    \<and> (\<forall>i<ls_size t. ls_x (snd (solveLapack L t)) ! i = ls_b (snd (solveLapack L t)) ! i)"
proof (intro conjI)
  show "\<forall>i<h_n s. nlsx (snd (solveHybrd E s)) ! i = h_x (snd (solveHybrd E s)) ! i"
    using assms(1)
    by (simp add: solveHybrd_def solveHybrd_data_def solveHybrd_exit_def memcpy_nth
        loop_frame init_frame)
next
  show "h_factor (snd (solveHybrd E s)) = h_factor s"
    by (simp add: solveHybrd_def solveHybrd_data_def solveHybrd_exit_def loop_frame init_frame)
next
  obtain ok s' where st: "lapack_status (solve_system L (update_vector_b L (update_matrix_A L
      (reset_matrix_A t)))) = (ok, s')"
    by (cases "lapack_status (solve_system L (update_vector_b L (update_matrix_A L
      (reset_matrix_A t))))")
  have "ls_size s' = ls_size t" "ls_x s' = ls_x t"
    using lapack_frame(1,2)[of "solve_system L (update_vector_b L (update_matrix_A L
      (reset_matrix_A t)))"]
    by (simp_all add: st lapack_frame)
  then show "\<forall>i<ls_size t. ls_x (snd (solveLapack L t)) ! i = ls_b (snd (solveLapack L t)) ! i"
    using assms(2) by (simp add: solveLapack_def st take_the_solution_def memcpy_nth)
qed

theorem always_writes_back_witness:
  "\<not> fst (solveHybrd (ex_improper) ex_data)
   \<and> h_x (snd (solveHybrd (ex_improper) ex_data)) = [3]
   \<and> nlsx (snd (solveHybrd (ex_improper) ex_data)) ! 0 = 3
   \<and> h_factor (snd (solveHybrd (ex_improper) ex_data)) = 100
   \<and> \<not> fst (solveLapack (ex_lapack [1, 0, 0, 0] [1, 0]) ex_linear)
   \<and> ls_b (snd (solveLapack (ex_lapack [1, 0, 0, 0] [1, 0]) ex_linear)) = [1, 0]
   \<and> ls_x (snd (solveLapack (ex_lapack [1, 0, 0, 0] [1, 0]) ex_linear)) ! 0 = 1
   \<and> ls_x (snd (solveLapack (ex_lapack [1, 0, 0, 0] [1, 0]) ex_linear)) ! 1 = 0"
proof -
  let ?E = "ex_improper"
  let ?L = "ex_lapack [1, 0, 0, 0] [1, 0]"
  have l: "h_n ex_data \<le> length (nlsx ex_data)" "ls_size ex_linear \<le> length (ls_x ex_linear)"
    by (simp_all add: ex_data_def ex_linear_def)
  have n: "h_n ex_data = Suc 0" "ls_size ex_linear = Suc (Suc 0)" "h_factor ex_data = 100"
    by (simp_all add: ex_data_def ex_linear_def)
  have h: "\<not> fst (solveHybrd ?E ex_data)" "h_x (snd (solveHybrd ?E ex_data)) = [3]"
    by (simp_all add: solveHybrd_def solveHybrd_data_def solveHybrd_exit_def ex_improper_run)
  have b: "\<not> fst (solveLapack ?L ex_linear)" "ls_b (snd (solveLapack ?L ex_linear)) = [1, 0]"
    by (simp_all add: lapack_eval)
  from always_writes_back[OF l, of ?E ?L] h b show ?thesis
    by (simp add: n less_Suc_eq)
qed

text \<open>
  C4 (status classification). A negative status gives \<open>False\<close> and the report
  \<open>Argument_illegal\<close> with the status, status zero gives \<open>True\<close> and no report
  (\<open>lapack_classification\<close>). For a positive status \<open>k\<close> the result is \<open>False\<close>, but the
  report prints \<open>k + 1\<close>, not \<open>k\<close>: for the matrix \<open>[[1, 0], [0, 0]]\<close> and the right-hand
  side \<open>[1, 0]\<close> the status is 2 and the warning names \<open>U[3, 3]\<close>.
\<close>

theorem singular_report_2x2:
  "solveLapack (ex_lapack [1, 0, 0, 0] [1, 0]) ex_linear =
     (False,
      \<lparr>ls_size = 2, ls_A = [1, 0, 0, 0], ls_b = [1, 0], ls_x = [1, 0], ls_ipiv = [1, 2],
       ls_nrhs = 1, ls_info = 2, ls_env = 2, ls_messages = [Singular_for_U 3 3]\<rparr>)"
  by (simp add: lapack_eval)

text \<open>
  C5 (initial seeding), as the claim states it, fails: in a discrete-event step the
  iterate is seeded from \<^verbatim>\<open>nlsx\<close>, the solution slot as it stands on entry, not from
  \<^verbatim>\<open>nlsxOld\<close>. In the instance below the step is discrete, \<^verbatim>\<open>nlsx\<close> is \<open>[5]\<close> and
  \<^verbatim>\<open>nlsxOld\<close> is \<open>[7]\<close>; the loop is entered with the iterate \<open>[5]\<close>.
\<close>

theorem initial_seeding_counterexample:
  "discreteCall (ex_data\<lparr>discreteCall := True\<rparr>)
   \<and> h_x (solveHybrd_init (ex_ext 1 (\<lambda>_. [0]) [1]) (ex_data\<lparr>discreteCall := True\<rparr>))
       = nlsx (ex_data\<lparr>discreteCall := True\<rparr>)
   \<and> h_x (solveHybrd_init (ex_ext 1 (\<lambda>_. [0]) [1]) (ex_data\<lparr>discreteCall := True\<rparr>))
       \<noteq> nlsxOld (ex_data\<lparr>discreteCall := True\<rparr>)"
  by (simp add: ex_eval)

text \<open>
  C5, amended. The first \<open>n\<close> entries of the iterate are seeded from \<^verbatim>\<open>nlsx\<close> when
  the step is a discrete-event evaluation and from \<^verbatim>\<open>nlsxExtrapolation\<close> otherwise;
  and the data with which the loop is entered is the seeded data after exactly one
  call of the residual callback, on the seeded iterate as it is (nothing is scaled,
  the callback sees the scaling flag off), with the flag as it was on entry.
\<close>

theorem initial_seeding:
  assumes "h_n s \<le> length (h_x s)"
  shows "(\<forall>i<h_n s. h_x (set_x_vector (solveHybrd_locals s)) ! i =
            (if discreteCall s then nlsx s ! i else nlsxExtrapolation s ! i))
    \<and> solveHybrd_init E s =
        (case residualFunc E ((set_x_vector (solveHybrd_locals s))\<lparr>h_useXScaling := False\<rparr>)
                (h_x (set_x_vector (solveHybrd_locals s))) (h_fvec s) 0 of
           (x', f', ifl', e') \<Rightarrow>
             (set_x_vector (solveHybrd_locals s))\<lparr>h_x := x', h_fvec := f', iflag := ifl', env := e'\<rparr>)"
proof
  show "\<forall>i<h_n s. h_x (set_x_vector (solveHybrd_locals s)) ! i =
            (if discreteCall s then nlsx s ! i else nlsxExtrapolation s ! i)"
    using assms by (simp add: set_x_vector_def solveHybrd_locals_def memcpy_nth)
next
  define s0 where "s0 = set_x_vector (solveHybrd_locals s)"
  have f: "h_fvec s0 = h_fvec s" "iflag s0 = 0"
    by (simp_all add: s0_def set_x_vector_def solveHybrd_locals_def)
  have "evaluate_with_discontinuities E s0 =
        (case residualFunc E (s0\<lparr>h_useXScaling := False\<rparr>) (h_x s0) (h_fvec s0) (iflag s0) of
           (x', f', ifl', e') \<Rightarrow> s0\<lparr>h_x := x', h_fvec := f', iflag := ifl', env := e'\<rparr>)"
  proof (cases "h_useXScaling s0")
    case True
    then show ?thesis
      by (simp add: evaluate_with_discontinuities_def call_wrapper_def wrapper_fvec_hybrd_def
          split: prod.splits)
  next
    case False
    then have e: "s0\<lparr>h_useXScaling := False\<rparr> = s0" by simp
    from False show ?thesis
      unfolding e
      by (simp add: evaluate_with_discontinuities_def call_wrapper_def wrapper_fvec_hybrd_def
          split: prod.splits)
  qed
  then show "solveHybrd_init E s =
        (case residualFunc E ((set_x_vector (solveHybrd_locals s))\<lparr>h_useXScaling := False\<rparr>)
                (h_x (set_x_vector (solveHybrd_locals s))) (h_fvec s) 0 of
           (x', f', ifl', e') \<Rightarrow>
             (set_x_vector (solveHybrd_locals s))\<lparr>h_x := x', h_fvec := f', iflag := ifl', env := e'\<rparr>)"
    unfolding solveHybrd_init_def f s0_def[symmetric] by (simp add: f)
qed

theorem initial_seeding_witness:
  "h_n ex_data \<le> length (h_x ex_data)
   \<and> h_x (set_x_vector (solveHybrd_locals ex_data)) ! 0 = nlsxExtrapolation ex_data ! 0
   \<and> h_x (set_x_vector (solveHybrd_locals (ex_data\<lparr>discreteCall := True\<rparr>))) ! 0 = nlsx ex_data ! 0
   \<and> env (solveHybrd_init (ex_ext 1 (\<lambda>_. [0]) [1]) ex_data) = Suc (env ex_data)
   \<and> h_fvec (solveHybrd_init (ex_ext 1 (\<lambda>_. [0]) [1]) ex_data) = [0]"
proof -
  have l: "h_n ex_data \<le> length (h_x ex_data)"
    "h_n (ex_data\<lparr>discreteCall := True\<rparr>) \<le> length (h_x (ex_data\<lparr>discreteCall := True\<rparr>))"
    by (simp_all add: ex_data_def)
  have z: "0 < h_n ex_data" "0 < h_n (ex_data\<lparr>discreteCall := True\<rparr>)"
    by (simp_all add: ex_data_def)
  note a = initial_seeding[OF l(1), of "ex_ext 1 (\<lambda>_. [0]) [1]"]
  note b = initial_seeding[OF l(2), of "ex_ext 1 (\<lambda>_. [0]) [1]"]
  from a z have a1: "h_x (set_x_vector (solveHybrd_locals ex_data)) ! 0 = nlsxExtrapolation ex_data ! 0"
    by (simp add: ex_data_def)
  from b z have b1: "h_x (set_x_vector (solveHybrd_locals (ex_data\<lparr>discreteCall := True\<rparr>))) ! 0 = nlsx ex_data ! 0"
    by (simp add: ex_data_def)
  from a have a2: "env (solveHybrd_init (ex_ext 1 (\<lambda>_. [0]) [1]) ex_data) = Suc (env ex_data)"
    "h_fvec (solveHybrd_init (ex_ext 1 (\<lambda>_. [0]) [1]) ex_data) = [0]"
    by (simp_all add: ex_ext_def ex_residual_def set_x_vector_def solveHybrd_locals_def)
  from l a1 b1 a2 show ?thesis by blast
qed

text \<open>
  C6 (reclassification of code 1). In a pass in which the root-finder reports
  termination code 1, the code with which the pass ends is 4 exactly when both the
  raw norm \<open>xerror\<close> and the scaled norm \<open>xerror_scaled\<close> computed in that pass exceed
  the tolerance \<open>local_tol\<close> in effect, and stays 1 otherwise.
\<close>

theorem reclassification:
  assumes "h_info (hybrd_attempt E s) = 1"
  shows "h_info (solveHybrd_pass E s) =
     (if local_tol s < xerror (hybrd_attempt E s) \<and> local_tol s < xerror_scaled (hybrd_attempt E s)
      then 4 else 1)"
  using assms
  by (simp add: solveHybrd_pass_def recovery_fields reclassify_def attempt_fields)

theorem reclassification_witness:
  "h_info (hybrd_attempt (ex_ext 1 (\<lambda>_. [1]) [1]) (solveHybrd_init (ex_ext 1 (\<lambda>_. [1]) [1]) ex_data)) = 1
   \<and> h_info (solveHybrd_pass (ex_ext 1 (\<lambda>_. [1]) [1]) (solveHybrd_init (ex_ext 1 (\<lambda>_. [1]) [1]) ex_data)) = 4
   \<and> h_info (hybrd_attempt ex_converge (solveHybrd_init ex_converge ex_data)) = 1
   \<and> h_info (solveHybrd_pass ex_converge (solveHybrd_init ex_converge ex_data)) = 1"
proof -
  let ?E = "ex_ext 1 (\<lambda>_. [1]) [1]"
  let ?s = "solveHybrd_init ?E ex_data"
  let ?t = "solveHybrd_init ex_converge ex_data"
  have a: "h_info (hybrd_attempt ?E ?s) = 1"
    and b: "h_info (hybrd_attempt ex_converge ?t) = 1"
    by (simp_all add: ex_eval)
  have n: "xerror (hybrd_attempt ?E ?s) = 1" "xerror_scaled (hybrd_attempt ?E ?s) = 1"
    "xerror (hybrd_attempt ex_converge ?t) = 0"
    by (simp_all add: ex_eval)
  from reclassification[OF a] reclassification[OF b] a b n show ?thesis
    by (simp add: init_fields)
qed

text \<open>
  C7 (residual scaling). After a pass, for every index \<open>i < n\<close> the entry
  \<open>resScaling[i]\<close> is the residual \<open>fvec[i]\<close> divided by the larger of \<open>1e-16\<close> and the
  largest absolute value among the entries \<open>i * n\<close>, ..., \<open>i * n + n - 1\<close> of the
  Jacobian estimate \<^verbatim>\<open>fjacobian\<close> (row \<open>i\<close>, as the debug output of the source reads
  the array), and \<open>xerror_scaled\<close> is the Euclidean norm of the first \<open>n\<close> entries of
  \<open>resScaling\<close>.
\<close>

theorem residual_scaling:
  assumes "i < h_n s" and "h_n s \<le> length (h_resScaling s)"
  shows "h_resScaling (solveHybrd_pass E s) ! i =
           h_fvec (solveHybrd_pass E s) ! i /
             max (1 / 10 ^ 16)
                 (Max ((\<lambda>j. \<bar>h_fjacobian (solveHybrd_pass E s) ! (i * h_n s + j)\<bar>) ` {..<h_n s}))
    \<and> xerror_scaled (solveHybrd_pass E s) =
        sqrt (\<Sum>k<h_n s. (h_resScaling (solveHybrd_pass E s) ! k)\<^sup>2)"
proof -
  define s' where "s' = evaluate_discrete E (check_proper_inputs (rescaling_x_vector (call_hybrd E
           (set_continuous (scaling_x_vector s)))))"
  note a = attempt_resScaling[OF s'_def]
  have p: "h_resScaling (solveHybrd_pass E s) = h_resScaling (scaling_residual_vector s')"
    "h_fvec (solveHybrd_pass E s) = h_fvec s'"
    "h_fjacobian (solveHybrd_pass E s) = h_fjacobian s'"
    "xerror_scaled (solveHybrd_pass E s) = enorm (h_n s) (h_resScaling (scaling_residual_vector s'))"
    using a
    by (simp_all add: solveHybrd_pass_def recovery_fields reclassify_fields
        check_for_error_fields scaling_residual_vector_fields)
  from assms a have i: "i < h_n s'" "h_n s' \<le> length (h_resScaling s')" by simp_all
  have ne: "(\<lambda>j. \<bar>h_fjacobian s' ! (i * h_n s + j)\<bar>) ` {..<h_n s} \<noteq> {}"
    using assms(1) by auto
  have "Max (insert (1 / 10 ^ 16) ((\<lambda>j. \<bar>h_fjacobian s' ! (i * h_n s + j)\<bar>) ` {..<h_n s})) =
      max (1 / 10 ^ 16) (Max ((\<lambda>j. \<bar>h_fjacobian s' ! (i * h_n s + j)\<bar>) ` {..<h_n s}))"
    using ne by (intro Max_insert) simp_all
  with scaling_residual_vector_nth[OF i] a show ?thesis
    unfolding p by (simp add: enorm_sum)
qed

theorem residual_scaling_witness:
  "h_n ex_data2 \<le> length (h_resScaling ex_data2)
   \<and> h_fvec (solveHybrd_pass (ex_ext 4 (\<lambda>_. [8, 3]) [1, - 4, 2, 3]) ex_data2) = [8, 3]
   \<and> h_fjacobian (solveHybrd_pass (ex_ext 4 (\<lambda>_. [8, 3]) [1, - 4, 2, 3]) ex_data2) = [1, - 4, 2, 3]
   \<and> h_resScaling (solveHybrd_pass (ex_ext 4 (\<lambda>_. [8, 3]) [1, - 4, 2, 3]) ex_data2) ! 0 = 2
   \<and> h_resScaling (solveHybrd_pass (ex_ext 4 (\<lambda>_. [8, 3]) [1, - 4, 2, 3]) ex_data2) ! 1 = 1
   \<and> xerror_scaled (solveHybrd_pass (ex_ext 4 (\<lambda>_. [8, 3]) [1, - 4, 2, 3]) ex_data2) = sqrt 5"
proof -
  let ?E = "ex_ext 4 (\<lambda>_. [8, 3]) [1, - 4, 2, 3]"
  have l: "h_n ex_data2 \<le> length (h_resScaling ex_data2)" "0 < h_n ex_data2" "1 < h_n ex_data2"
    by (simp_all add: ex_data2_def ex_data_def)
  have n: "h_n ex_data2 = Suc (Suc 0)" by (simp add: ex_data2_def ex_data_def)
  have f: "h_fvec (solveHybrd_pass ?E ex_data2) = [8, 3]"
    "h_fjacobian (solveHybrd_pass ?E ex_data2) = [1, - 4, 2, 3]"
    by (simp_all add: ex_data2_def ex_eval pass_eval eval_nat_numeral)
  note r0 = residual_scaling[OF l(2) l(1), of ?E]
  note r1 = residual_scaling[OF l(3) l(1), of ?E]
  from r0 have v0: "h_resScaling (solveHybrd_pass ?E ex_data2) ! 0 = 2"
    by (simp add: f n lessThan_Suc)
  from r1 have v1: "h_resScaling (solveHybrd_pass ?E ex_data2) ! Suc 0 = 1"
    by (simp add: f n lessThan_Suc)
  from r0 have "xerror_scaled (solveHybrd_pass ?E ex_data2) = sqrt 5"
    by (simp add: v0 v1 n lessThan_Suc)
  with l f v0 v1 show ?thesis by simp
qed

text \<open>
  C8 (bound on the recovery attempts), as the claim states it, fails: with a
  root-finder that reports code 4 and the residual \<open>[1]\<close> on every call the loop makes
  192 passes, that is 191 recovery attempts, not at most 14. The counters \<open>retries\<close>
  and \<open>retries2\<close> are reset by the later tiers, so the earlier tiers run again.
\<close>

theorem recovery_bound_counterexample:
  "solveHybrd_passes (ex_stall) (solveHybrd_init (ex_stall) ex_data) = 192
   \<and> \<not> solveHybrd_passes (ex_stall)
          (solveHybrd_init (ex_stall) ex_data) - 1 \<le> 14"
proof -
  let ?E = "ex_stall"
  let ?s = "solveHybrd_init ?E ex_data"
  have i: "h_n ?s = 1" "length (h_resScaling ?s) = 1"
    by (simp_all add: ex_eval)
  have t: "0 < local_tol ?s" "local_tol ?s * 10 ^ nat (7 - retries3 ?s) < 1"
    by (simp_all add: init_fields)
  have g: "\<not> giveUp ?s" "\<not> success ?s" by (simp_all add: init_fields)
  have "budget ?s = 191" by (simp add: budget_def init_fields)
  with ex_stall_passes[OF i t g] show ?thesis by simp
qed

text \<open>
  C8, amended. For every input the loop of \<^verbatim>\<open>solveHybrd\<close> terminates, with \<open>giveUp\<close> or
  \<open>success\<close> set, after at most 192 passes: at most \<open>5 + 3 * 6 + 7 * 24 = 191\<close> recovery
  attempts after the first call of the root-finder. (The loop is a total function,
  its termination is proved with the measure \<open>passes_left\<close>; what it returns is the
  pass iterated as many times as \<open>solveHybrd_passes\<close> counts.)
\<close>

theorem recovery_bound:
  "solveHybrd_passes E (solveHybrd_init E s) \<le> 192
   \<and> solveHybrd_loop E (solveHybrd_init E s) =
       (solveHybrd_pass E ^^ solveHybrd_passes E (solveHybrd_init E s)) (solveHybrd_init E s)
   \<and> (giveUp (solveHybrd_loop E (solveHybrd_init E s))
        \<or> success (solveHybrd_loop E (solveHybrd_init E s)))"
proof (intro conjI)
  have "passes_left (solveHybrd_init E s) = 192"
    by (simp add: passes_left_def budget_def init_fields)
  with passes_bound[of E "solveHybrd_init E s"]
  show "solveHybrd_passes E (solveHybrd_init E s) \<le> 192" by simp
next
  show "solveHybrd_loop E (solveHybrd_init E s) =
       (solveHybrd_pass E ^^ solveHybrd_passes E (solveHybrd_init E s)) (solveHybrd_init E s)"
    by (rule loop_funpow)
next
  show "giveUp (solveHybrd_loop E (solveHybrd_init E s))
        \<or> success (solveHybrd_loop E (solveHybrd_init E s))"
    by (rule loop_exit)
qed

text \<open>
  C9 (scaling round trip). For a scale vector whose first \<open>n\<close> entries are strictly
  positive and a residual callback that leaves the iterate it is given unchanged, the
  iterate that \<^verbatim>\<open>wrapper_fvec_hybrd\<close> hands back is exactly the iterate it was given:
  multiplying by \<open>nlsxScaling[i]\<close> and then by \<open>1 / nlsxScaling[i]\<close> is the identity in
  real arithmetic (with the scaling switched off nothing is multiplied at all).
\<close>

theorem wrapper_round_trip:
  assumes pos: "\<forall>i<n. 0 < nlsxScaling d ! i"
    and keep: "\<forall>y. fst (residualFunc E d y f ifl) = y"
  shows "fst (wrapper_fvec_hybrd E n x f ifl d) = x"
proof -
  define x1 where "x1 = upd_each n (\<lambda>i xi. xi * nlsxScaling d ! i) x"
  define unsc where "unsc = upd_each n (\<lambda>i xi. (1 / nlsxScaling d ! i) * xi)"
  have rt: "unsc x1 = x"
  proof (rule nth_equalityI)
    show "length (unsc x1) = length x" by (simp add: unsc_def x1_def)
  next
    fix k assume "k < length (unsc x1)"
    then have k: "k < length x" by (simp add: unsc_def x1_def)
    show "unsc x1 ! k = x ! k"
    proof (cases "k < n")
      case True
      with pos have "nlsxScaling d ! k \<noteq> 0" by force
      with k True show ?thesis by (simp add: unsc_def x1_def upd_each_nth)
    next
      case False
      with k show ?thesis by (simp add: unsc_def x1_def upd_each_nth)
    qed
  qed
  have w: "fst (wrapper_fvec_hybrd E n x f ifl d) =
      (if h_useXScaling d then unsc (fst (residualFunc E d x1 f ifl))
       else fst (residualFunc E d x f ifl))"
    unfolding wrapper_fvec_hybrd_def unsc_def x1_def
    by (simp split: prod.splits)
  show ?thesis
    unfolding w using keep rt by simp
qed

theorem wrapper_round_trip_witness:
  "0 < nlsxScaling (ex_data\<lparr>nlsxScaling := [2, 4]\<rparr>) ! 0
   \<and> 0 < nlsxScaling (ex_data\<lparr>nlsxScaling := [2, 4]\<rparr>) ! 1
   \<and> fst (wrapper_fvec_hybrd (ex_ext 4 (\<lambda>_. [1, 1]) [1]) 2 [1, 3] [0, 0] 0
            (ex_data\<lparr>nlsxScaling := [2, 4]\<rparr>)) = [1, 3]"
proof -
  have p: "\<forall>i<2. 0 < nlsxScaling (ex_data\<lparr>nlsxScaling := [2, 4]\<rparr>) ! i"
    by (simp add: ex_data_def less_Suc_eq numeral_2_eq_2)
  have k: "\<forall>y. fst (residualFunc (ex_ext 4 (\<lambda>_. [1, 1]) [1])
                      (ex_data\<lparr>nlsxScaling := [2, 4]\<rparr>) y [0, 0] 0) = y"
    by (simp add: ex_ext_def ex_residual_def)
  from wrapper_round_trip[OF p k, of "[1, 3]"] show ?thesis
    by (simp add: ex_data_def)
qed

text \<open>
  C10 (improper input). In a pass in which the root-finder reports termination code
  0, \<open>found_solution\<close> is set to \<open>-1\<close>; no recovery tier fires: the pass ends with the
  data as the attempt left it, but for \<open>success\<close> and the evaluation count when one of
  the two norms is within the tolerance; \<open>giveUp\<close> stays set, so the loop ends with
  this pass, and \<open>success\<close> is set only if a norm met the tolerance.
\<close>

theorem improper_input:
  assumes "h_info (hybrd_attempt E s) = 0"
  shows "found_solution (solveHybrd_pass E s) = - 1
    \<and> solveHybrd_pass E s =
        (if xerror (hybrd_attempt E s) \<le> local_tol s \<or> xerror_scaled (hybrd_attempt E s) \<le> local_tol s
         then (hybrd_attempt E s)\<lparr>success := True,
                nfunc_evals := nfunc_evals (hybrd_attempt E s) + h_nfev (hybrd_attempt E s)\<rparr>
         else hybrd_attempt E s)
    \<and> giveUp (solveHybrd_pass E s)
    \<and> solveHybrd_loop E (solveHybrd_pass E s) = solveHybrd_pass E s
    \<and> success (solveHybrd_pass E s) =
        (success s \<or> xerror (hybrd_attempt E s) \<le> local_tol s
         \<or> xerror_scaled (hybrd_attempt E s) \<le> local_tol s)"
proof -
  have r: "reclassify (hybrd_attempt E s) = hybrd_attempt E s"
    using assms by (simp add: reclassify_def)
  have p: "solveHybrd_pass E s =
        (if xerror (hybrd_attempt E s) \<le> local_tol s \<or> xerror_scaled (hybrd_attempt E s) \<le> local_tol s
         then (hybrd_attempt E s)\<lparr>success := True,
                nfunc_evals := nfunc_evals (hybrd_attempt E s) + h_nfev (hybrd_attempt E s)\<rparr>
         else hybrd_attempt E s)"
    using assms unfolding solveHybrd_pass_def r recovery_def
    by (simp add: attempt_fields)
  have g: "giveUp (solveHybrd_pass E s)"
    unfolding p by (simp add: attempt_fields)
  have f: "found_solution (solveHybrd_pass E s) = - 1"
    unfolding p using assms by (simp add: attempt_improper)
  have s: "success (solveHybrd_pass E s) =
        (success s \<or> xerror (hybrd_attempt E s) \<le> local_tol s
         \<or> xerror_scaled (hybrd_attempt E s) \<le> local_tol s)"
    unfolding p by (simp add: attempt_fields)
  from g have "solveHybrd_loop E (solveHybrd_pass E s) = solveHybrd_pass E s"
    by (simp add: loop_stop)
  with p g f s show ?thesis by blast
qed

theorem improper_input_witness:
  "h_info (hybrd_attempt (ex_improper) (solveHybrd_init (ex_improper) ex_data)) = 0
   \<and> found_solution (solveHybrd_pass (ex_improper) (solveHybrd_init (ex_improper) ex_data)) = - 1
   \<and> giveUp (solveHybrd_pass (ex_improper) (solveHybrd_init (ex_improper) ex_data))
   \<and> \<not> success (solveHybrd_pass (ex_improper) (solveHybrd_init (ex_improper) ex_data))
   \<and> \<not> fst (solveHybrd (ex_improper) ex_data)"
proof -
  let ?E = "ex_improper"
  let ?s = "solveHybrd_init ?E ex_data"
  have a: "h_info (hybrd_attempt ?E ?s) = 0"
    by (simp add: ex_eval)
  have n: "xerror (hybrd_attempt ?E ?s) = 1" "xerror_scaled (hybrd_attempt ?E ?s) = 1"
    by (simp_all add: ex_eval)
  note i = improper_input[OF a]
  have ns: "\<not> success (solveHybrd_pass ?E ?s)"
    using i n by (simp add: init_fields attempt_fields)
  have "solveHybrd_loop ?E ?s = solveHybrd_loop ?E (solveHybrd_pass ?E ?s)"
    by (rule loop_step) (simp_all add: init_fields)
  also have "\<dots> = solveHybrd_pass ?E ?s"
    using i by blast
  finally have "\<not> fst (solveHybrd ?E ex_data)"
    using ns by (simp add: solveHybrd_def solveHybrd_data_def solveHybrd_exit_def)
  with a i ns show ?thesis by blast
qed

end
